theory Spec2Isabelle
  imports Complex_Main "HOL-Library.Word"
begin

section \<open>JavaScript strings\<close>

text \<open>
  A JavaScript string is a sequence of UTF-16 code units. Texts and file contents are
  modelled as such; a file's content is the string that \<open>readFileSync(path, 'utf8')\<close>
  yields, so what a write stores is what its UTF-8 bytes decode to. Language codes and file names are ASCII identifiers in the program and are
  kept as HOL strings.
\<close>

type_synonym jstring = "16 word list"

definition js :: "string \<Rightarrow> jstring" where
  "js s = map (\<lambda>c. of_nat (of_char c)) s"

definition QUOTE :: "16 word" where "QUOTE = 0x22"
definition COMMA :: "16 word" where "COMMA = 0x2C"
definition LF :: "16 word" where "LF = 0x0A"
definition CR :: "16 word" where "CR = 0x0D"

text \<open>
  \<open>String.prototype.trim\<close> removes the WhiteSpace and LineTerminator code points of
  ECMAScript from both ends.
\<close>

definition isWhiteSpace :: "16 word \<Rightarrow> bool" where
  "isWhiteSpace c \<longleftrightarrow>
     c = 0x0009 \<or> c = 0x000A \<or> c = 0x000B \<or> c = 0x000C \<or> c = 0x000D \<or> c = 0x0020 \<or>
     c = 0x00A0 \<or> c = 0x1680 \<or> (0x2000 \<le> c \<and> c \<le> 0x200A) \<or> c = 0x2028 \<or>
     c = 0x2029 \<or> c = 0x202F \<or> c = 0x205F \<or> c = 0x3000 \<or> c = 0xFEFF"

definition trim :: "jstring \<Rightarrow> jstring" where
  "trim s = rev (dropWhile isWhiteSpace (rev (dropWhile isWhiteSpace s)))"

text \<open>
  \<open>s.split(',')\<close> and \<open>csv.split(/\r?\n/)\<close>: the pieces between the separators, the
  empty string giving one empty piece. \<open>push_front c ps\<close> puts \<open>c\<close> in front of the
  first piece.
\<close>

fun push_front :: "16 word \<Rightarrow> jstring list \<Rightarrow> jstring list" where
  "push_front c [] = [[c]]"
| "push_front c (p # ps) = (c # p) # ps"

fun split_comma :: "jstring \<Rightarrow> jstring list" where
  "split_comma [] = [[]]"
| "split_comma (c # cs) =
     (if c = COMMA then [] # split_comma cs else push_front c (split_comma cs))"

fun split_lines :: "jstring \<Rightarrow> jstring list" where
  "split_lines [] = [[]]"
| "split_lines [c] = (if c = LF then [[], []] else [[c]])"
| "split_lines (c # d # cs) =
     (if c = CR \<and> d = LF then [] # split_lines cs
      else if c = LF then [] # split_lines (d # cs)
      else push_front c (split_lines (d # cs)))"

text \<open>\<open>s.replace(/^"|"$/g, '')\<close>: one quote less at the start, one less at the end.\<close>

definition strip_quotes :: "jstring \<Rightarrow> jstring" where
  "strip_quotes s =
     (let s1 = (if s \<noteq> [] \<and> hd s = QUOTE then tl s else s)
      in if s1 \<noteq> [] \<and> last s1 = QUOTE then butlast s1 else s1)"

text \<open>\<open>line.split(',').map(s => s.replace(/^"|"$/g, '').trim())\<close>\<close>

definition csv_fields :: "jstring \<Rightarrow> jstring list" where
  "csv_fields line = map (\<lambda>s. trim (strip_quotes s)) (split_comma line)"

text \<open>
  The scan of \<open>lookupCulturalIdiom\<close> and of \<open>getPhraseFromCSV\<close>:
  \<open>for (const line of lines) { const [src, tgt] = ...;
     if (src && tgt && src.toLowerCase() === input) return tgt; }\<close>.
  \<open>lc\<close> is \<open>String.prototype.toLowerCase\<close> of the host, about which nothing is
  assumed.
\<close>

fun find_phrase :: "(jstring \<Rightarrow> jstring) \<Rightarrow> jstring \<Rightarrow> jstring list \<Rightarrow> jstring option" where
  "find_phrase lc input [] = None"
| "find_phrase lc input (line # lines) =
     (case csv_fields line of
        src # tgt # _ \<Rightarrow>
          if src \<noteq> [] \<and> tgt \<noteq> [] \<and> lc src = input then Some tgt
          else find_phrase lc input lines
      | _ \<Rightarrow> find_phrase lc input lines)"

text \<open>
  The scan of the route's cache update:
  \<open>if (src && src.toLowerCase() === input) { found = true; break; }\<close>.
\<close>

fun src_present :: "(jstring \<Rightarrow> jstring) \<Rightarrow> jstring \<Rightarrow> jstring list \<Rightarrow> bool" where
  "src_present lc input [] = False"
| "src_present lc input (line # lines) =
     (case csv_fields line of
        src # _ \<Rightarrow> if src \<noteq> [] \<and> lc src = input then True else src_present lc input lines
      | [] \<Rightarrow> src_present lc input lines)"

section \<open>Language detection\<close>

record Detection =
  language :: string
  confidence :: real

text \<open>The three character classes: \<open>[\u0B80-\u0BFF]\<close>, \<open>[\u0C00-\u0C7F]\<close>, \<open>[\u0900-\u097F]\<close>.\<close>

definition isTamil :: "16 word \<Rightarrow> bool" where
  "isTamil c \<longleftrightarrow> 0x0B80 \<le> c \<and> c \<le> 0x0BFF"

definition isTelugu :: "16 word \<Rightarrow> bool" where
  "isTelugu c \<longleftrightarrow> 0x0C00 \<le> c \<and> c \<le> 0x0C7F"

definition isDevanagari :: "16 word \<Rightarrow> bool" where
  "isDevanagari c \<longleftrightarrow> 0x0900 \<le> c \<and> c \<le> 0x097F"

text \<open>\<open>regex.test(text)\<close> for a one-character class: some code unit of the text is in it.\<close>

definition tamilRegex :: "jstring \<Rightarrow> bool" where
  "tamilRegex text = list_ex isTamil text"

definition teluguRegex :: "jstring \<Rightarrow> bool" where
  "teluguRegex text = list_ex isTelugu text"

definition hindiRegex :: "jstring \<Rightarrow> bool" where
  "hindiRegex text = list_ex isDevanagari text"

definition detectLanguage :: "jstring \<Rightarrow> Detection" where
  "detectLanguage text =
     (if tamilRegex text then \<lparr>language = ''ta'', confidence = 1\<rparr>
      else if teluguRegex text then \<lparr>language = ''te'', confidence = 1\<rparr>
      else if hindiRegex text then \<lparr>language = ''hi'', confidence = 0.8\<rparr>
      else \<lparr>language = ''en'', confidence = 0.5\<rparr>)"

section \<open>The host: file system, model pipeline, faults\<close>

datatype js_error = FsError | ModelLoadError | TranslatorError | TypeError | PreprocessError

text \<open>
  What \<open>nllbLangMap[lang]\<close> can yield and the translator is given as a language: one of
  the table's own codes, or a member that every object inherits, by its name.
\<close>

datatype js_member = Code string | Inherited string

datatype effect =
    ReadDir
  | Exists string
  | ReadFile string
  | AppendFile string jstring
  | WriteFile string jstring
  | PipelineLoad
  | Translate jstring js_member js_member

datatype promise = Pending | Fulfilled | Rejected

record Flags =
  hadShortforms :: bool
  hadSlang :: bool
  hadSarcasm :: bool

text \<open>
  What the program does not define itself is a parameter of the model: the host's
  \<open>toLowerCase\<close>, whether \<open>pipeline(...)\<close> loads the model, what the loaded translator
  answers (an error, or the array of outputs with their \<open>translation_text\<close> when
  present), which file operations fail, and \<open>preprocessText\<close> of
  \<open>utils/preprocess\<close>. A host stands for the length of one request: a file operation
  that fails on a file fails on it throughout the request, and another request may be run
  under another host. The request has passed the middleware (\<open>auth\<close>,
  \<open>validateRequest\<close>): its text and its target language are strings.
\<close>

record env =
  toLowerCase :: "jstring \<Rightarrow> jstring"
  pipeline_ok :: bool
  model :: "jstring \<Rightarrow> js_member \<Rightarrow> js_member \<Rightarrow> js_error + jstring option list"
  readdir_fails :: bool
  read_fails :: "string \<Rightarrow> bool"
  append_fails :: "string \<Rightarrow> bool"
  write_fails :: "string \<Rightarrow> bool"
  preprocessText :: "jstring \<Rightarrow> js_error + jstring \<times> Flags"

text \<open>
  The mutable state: the files of the \<open>data\<close> directory by name, \<open>modelCache\<close> of the
  local translator, and the log of the effects performed so far.
\<close>

record world =
  files :: "string \<rightharpoonup> jstring"
  translator :: bool
  translatorPromise :: "promise option"
  trace :: "effect list"

definition emit :: "effect \<Rightarrow> world \<Rightarrow> world" where
  "emit e w = w\<lparr>trace := trace w @ [e]\<rparr>"

definition readdirSync :: "env \<Rightarrow> world \<Rightarrow> (js_error + string set) \<times> world" where
  "readdirSync env w =
     (if readdir_fails env then (Inl FsError, emit ReadDir w)
      else (Inr (dom (files w)), emit ReadDir w))"

definition existsSync :: "string \<Rightarrow> world \<Rightarrow> bool \<times> world" where
  "existsSync name w = (files w name \<noteq> None, emit (Exists name) w)"

definition readFileSync :: "env \<Rightarrow> string \<Rightarrow> world \<Rightarrow> (js_error + jstring) \<times> world" where
  "readFileSync env name w =
     (if read_fails env name then (Inl FsError, emit (ReadFile name) w)
      else case files w name of
             None \<Rightarrow> (Inl FsError, emit (ReadFile name) w)
           | Some csv \<Rightarrow> (Inr csv, emit (ReadFile name) w))"

text \<open>
  The write calls encode the string as UTF-8 and a later read decodes it. A surrogate
  pair comes back as it was; a surrogate without its partner is written as U+FFFD and
  comes back as such.
\<close>

definition isHigh :: "16 word \<Rightarrow> bool" where
  "isHigh c \<longleftrightarrow> 0xD800 \<le> c \<and> c \<le> 0xDBFF"

definition isLow :: "16 word \<Rightarrow> bool" where
  "isLow c \<longleftrightarrow> 0xDC00 \<le> c \<and> c \<le> 0xDFFF"

fun utf8_roundtrip :: "jstring \<Rightarrow> jstring" where
  "utf8_roundtrip [] = []"
| "utf8_roundtrip [c] = (if isHigh c \<or> isLow c then [0xFFFD] else [c])"
| "utf8_roundtrip (c # d # cs) =
     (if isHigh c \<and> isLow d then c # d # utf8_roundtrip cs
      else if isHigh c \<or> isLow c then 0xFFFD # utf8_roundtrip (d # cs)
      else c # utf8_roundtrip (d # cs))"

definition appendFileSync :: "env \<Rightarrow> string \<Rightarrow> jstring \<Rightarrow> world \<Rightarrow> (js_error + unit) \<times> world" where
  "appendFileSync env name data w =
     (if append_fails env name then (Inl FsError, emit (AppendFile name data) w)
      else (Inr (),
            emit (AppendFile name data)
              (w\<lparr>files := (files w)(name \<mapsto>
                     (case files w name of None \<Rightarrow> [] | Some old \<Rightarrow> old)
                     @ utf8_roundtrip data)\<rparr>)))"

definition writeFileSync :: "env \<Rightarrow> string \<Rightarrow> jstring \<Rightarrow> world \<Rightarrow> (js_error + unit) \<times> world" where
  "writeFileSync env name data w =
     (if write_fails env name then (Inl FsError, emit (WriteFile name data) w)
      else (Inr (),
            emit (WriteFile name data) (w\<lparr>files := (files w)(name \<mapsto> utf8_roundtrip data)\<rparr>)))"

section \<open>The local translator\<close>

text \<open>
  \<open>nllbLangMap\<close>, the table from language codes to NLLB-200 codes, is a plain object:
  \<open>nllbLangMap[lang]\<close> yields the code of one of its own five keys, and for a name
  that \<open>Object.prototype\<close> defines it yields the inherited member, a function or an
  object. \<open>object_prototype\<close> lists these names as ECMAScript fixes them.
\<close>

definition nllbLangMap :: "string \<rightharpoonup> string" where
  "nllbLangMap =
     [''en'' \<mapsto> ''eng_Latn'', ''hi'' \<mapsto> ''hin_Deva'', ''mr'' \<mapsto> ''mar_Deva'',
      ''ta'' \<mapsto> ''tam_Taml'', ''te'' \<mapsto> ''tel_Telu'']"

text \<open>
  \<open>loadModel\<close> is an async function with one \<open>await\<close>. \<open>loadModel_enter\<close> is
  what a call runs before it: the two tests and, when neither the instance nor the
  promise is there, the call of \<open>pipeline\<close>, whose promise is stored. It answers
  whether the call now waits for the promise. \<open>settle\<close> is the pipeline's promise
  being fulfilled or rejected. \<open>loadModel_resume\<close> is the rest of the call, run once
  the awaited promise is settled: the instance is stored, or the rejection is raised.
\<close>

definition loadModel_enter :: "world \<Rightarrow> bool \<times> world" where
  "loadModel_enter w =
     (if \<not> translator w then
        (if translatorPromise w = None
         then (True, emit PipelineLoad (w\<lparr>translatorPromise := Some Pending\<rparr>))
         else (True, w))
      else (False, w))"

definition settle :: "bool \<Rightarrow> world \<Rightarrow> world" where
  "settle ok w =
     (if translatorPromise w = Some Pending
      then w\<lparr>translatorPromise := Some (if ok then Fulfilled else Rejected)\<rparr>
      else w)"

definition loadModel_resume :: "world \<Rightarrow> (js_error + unit) \<times> world" where
  "loadModel_resume w =
     (if translatorPromise w = Some Fulfilled then (Inr (), w\<lparr>translator := True\<rparr>)
      else (Inl ModelLoadError, w))"

text \<open>One call of \<open>loadModel\<close> run to its end, the promise settling while it waits.\<close>

definition loadModel :: "env \<Rightarrow> world \<Rightarrow> (js_error + unit) \<times> world" where
  "loadModel env w =
     (case loadModel_enter w of
        (True, w1) \<Rightarrow> loadModel_resume (settle (pipeline_ok env) w1)
      | (False, w1) \<Rightarrow> (Inr (), w1))"

text \<open>\<open>result[0]?.translation_text || text\<close>\<close>

fun translation_text_or :: "jstring option list \<Rightarrow> jstring \<Rightarrow> jstring" where
  "translation_text_or [] text = text"
| "translation_text_or (None # _) text = text"
| "translation_text_or (Some t # _) text = (if t \<noteq> [] then t else text)"

definition object_prototype :: "string list" where
  "object_prototype =
     [''constructor'', ''__defineGetter__'', ''__defineSetter__'', ''hasOwnProperty'',
      ''__lookupGetter__'', ''__lookupSetter__'', ''isPrototypeOf'', ''propertyIsEnumerable'',
      ''toString'', ''valueOf'', ''__proto__'', ''toLocaleString'']"

definition nllbLangMap_get :: "string \<Rightarrow> js_member option" where
  "nllbLangMap_get lang =
     (case nllbLangMap lang of
        Some c \<Rightarrow> Some (Code c)
      | None \<Rightarrow> if lang \<in> set object_prototype then Some (Inherited lang) else None)"

text \<open>
  \<open>nllbLangMap[lang] || 'eng_Latn'\<close>: the own codes are non-empty strings and the
  inherited members are functions or objects, so whatever the lookup yields is kept.
\<close>

definition nllb_code :: "string \<Rightarrow> js_member" where
  "nllb_code lang = (case nllbLangMap_get lang of Some v \<Rightarrow> v | None \<Rightarrow> Code ''eng_Latn'')"

definition localTranslate ::
  "env \<Rightarrow> jstring \<Rightarrow> string \<Rightarrow> string \<Rightarrow> world \<Rightarrow> (js_error + jstring) \<times> world" where
  "localTranslate env text sourceLang targetLang w =
     (case loadModel env w of
        (Inl e, w1) \<Rightarrow> (Inl e, w1)
      | (Inr _, w1) \<Rightarrow>
          (let src = nllb_code sourceLang;
               tgt = nllb_code targetLang;
               w2 = emit (Translate text src tgt) w1
           in case model env text src tgt of
                Inl e \<Rightarrow> (Inl e, w2)
              | Inr result \<Rightarrow> (Inr (translation_text_or result text), w2)))"

section \<open>Idiom table and phrase cache lookups\<close>

text \<open>
  The idiom file of a directed pair. The source assigns \<open>idiomFile\<close> in eight
  successive \<open>if\<close>s, of which the last that holds decides; here the last comes first.
  The eight tests exclude each other.
\<close>

definition idiomFile :: "string \<Rightarrow> string \<Rightarrow> string option" where
  "idiomFile sourceLang targetLang =
     (if sourceLang = ''te'' \<and> targetLang = ''en'' then Some ''te-en-idioms.csv''
      else if sourceLang = ''ta'' \<and> targetLang = ''en'' then Some ''ta-en-idioms.csv''
      else if sourceLang = ''hi'' \<and> targetLang = ''en'' then Some ''hi-en-idioms.csv''
      else if sourceLang = ''mr'' \<and> targetLang = ''en'' then Some ''mr-en-idioms.csv''
      else if sourceLang = ''en'' \<and> targetLang = ''te'' then Some ''en-te-idioms.csv''
      else if sourceLang = ''en'' \<and> targetLang = ''ta'' then Some ''en-ta-idioms.csv''
      else if sourceLang = ''en'' \<and> targetLang = ''mr'' then Some ''en-mr-idioms.csv''
      else if sourceLang = ''en'' \<and> targetLang = ''hi'' then Some ''en-hi-idioms.csv''
      else None)"

definition lookupCulturalIdiom ::
  "env \<Rightarrow> jstring \<Rightarrow> string \<Rightarrow> string \<Rightarrow> world \<Rightarrow> jstring option \<times> world" where
  "lookupCulturalIdiom env text sourceLang targetLang w =
     (let input = toLowerCase env (trim text)
      in case idiomFile sourceLang targetLang of
           None \<Rightarrow> (None, w)
         | Some f \<Rightarrow>
             (case readFileSync env f w of
                (Inl _, w1) \<Rightarrow> (None, w1)
              | (Inr csv, w1) \<Rightarrow> (find_phrase (toLowerCase env) input (split_lines csv), w1)))"

definition pairFile :: "string \<Rightarrow> string \<Rightarrow> string" where
  "pairFile sourceLang targetLang = sourceLang @ ''-'' @ targetLang @ ''.csv''"

definition getPhraseFromCSV ::
  "env \<Rightarrow> jstring \<Rightarrow> string \<Rightarrow> string \<Rightarrow> world \<Rightarrow> jstring option \<times> world" where
  "getPhraseFromCSV env text sourceLang targetLang w =
     (case readdirSync env w of
        (Inl _, w1) \<Rightarrow> (None, w1)
      | (Inr names, w1) \<Rightarrow>
          if pairFile sourceLang targetLang \<notin> names then (None, w1)
          else (case readFileSync env (pairFile sourceLang targetLang) w1 of
                  (Inl _, w2) \<Rightarrow> (None, w2)
                | (Inr csv, w2) \<Rightarrow>
                    (find_phrase (toLowerCase env) (toLowerCase env (trim text))
                       (split_lines csv), w2)))"

section \<open>The orchestrator\<close>

record Options =
  opt_targetLanguage :: "string option"
  opt_sourceLanguage :: "string option"
  opt_culturalAdaptation :: bool

text \<open>The second argument of \<open>translateText\<close>: absent, \<open>null\<close>, a code, or an options object.\<close>

datatype js_arg = Undefined | Null | Str string | Obj Options

record TranslationResult =
  translatedText :: jstring

text \<open>\<open>options.targetLanguage || 'en'\<close>\<close>

definition or_en :: "string option \<Rightarrow> string" where
  "or_en v = (case v of None \<Rightarrow> ''en'' | Some s \<Rightarrow> if s = [] then ''en'' else s)"

text \<open>
  The head of \<open>translateText\<close>: the defaults of the parameters, then the options
  object when the second argument has type \<open>object\<close>, which \<open>null\<close> has too; reading a
  property of \<open>null\<close> raises.
\<close>

definition resolve_languages :: "js_arg \<Rightarrow> string option \<Rightarrow> js_error + string \<times> string" where
  "resolve_languages targetLanguage sourceLanguage =
     (case targetLanguage of
        Obj options \<Rightarrow> Inr (or_en (opt_targetLanguage options), or_en (opt_sourceLanguage options))
      | Null \<Rightarrow> Inl TypeError
      | Undefined \<Rightarrow> Inr (''en'', case sourceLanguage of None \<Rightarrow> ''en'' | Some s \<Rightarrow> s)
      | Str t \<Rightarrow> Inr (t, case sourceLanguage of None \<Rightarrow> ''en'' | Some s \<Rightarrow> s))"

text \<open>
  \<open>localPromise\<close>: one call of the local translator when an end is English, two calls
  through English otherwise, the second on the text the first returned.
\<close>

definition localPromise ::
  "env \<Rightarrow> jstring \<Rightarrow> string \<Rightarrow> string \<Rightarrow> world \<Rightarrow> (js_error + jstring) \<times> world" where
  "localPromise env text sourceLanguage targetLanguage w =
     (if sourceLanguage = ''en'' \<or> targetLanguage = ''en''
      then localTranslate env text sourceLanguage targetLanguage w
      else (case localTranslate env text sourceLanguage ''en'' w of
              (Inl e, w1) \<Rightarrow> (Inl e, w1)
            | (Inr intermediate, w1) \<Rightarrow> localTranslate env intermediate ''en'' targetLanguage w1))"

definition translateText ::
  "env \<Rightarrow> jstring \<Rightarrow> js_arg \<Rightarrow> string option \<Rightarrow> world \<Rightarrow> (js_error + TranslationResult) \<times> world" where
  "translateText env text targetLanguage0 sourceLanguage0 w =
     (case resolve_languages targetLanguage0 sourceLanguage0 of
        Inl e \<Rightarrow> (Inl e, w)
      | Inr (targetLanguage, sourceLanguage) \<Rightarrow>
          if text = [] \<or> trim text = [] \<or> sourceLanguage = targetLanguage
          then (Inr \<lparr>translatedText = text\<rparr>, w)
          else (case lookupCulturalIdiom env text sourceLanguage targetLanguage w of
                  (Some idiom, w1) \<Rightarrow> (Inr \<lparr>translatedText = idiom\<rparr>, w1)
                | (None, w1) \<Rightarrow>
                    (case getPhraseFromCSV env text sourceLanguage targetLanguage w1 of
                       (phrase, w2) \<Rightarrow>
                         (case localPromise env text sourceLanguage targetLanguage w2 of
                            (Inl e, w3) \<Rightarrow> (Inl e, w3)
                          | (Inr localResult, w3) \<Rightarrow>
                              (case phrase of
                                 Some p \<Rightarrow> (Inr \<lparr>translatedText = p\<rparr>, w3)
                               | None \<Rightarrow>
                                   if localResult \<noteq> [] \<and>
                                      toLowerCase env (trim localResult) \<noteq> toLowerCase env (trim text)
                                   then (Inr \<lparr>translatedText = localResult\<rparr>, w3)
                                   else (Inr \<lparr>translatedText = text\<rparr>, w3))))))"

section \<open>The translation route\<close>

record Request =
  req_text :: jstring
  req_targetLanguage :: string
  req_enablePreprocessing :: "bool option"

record Response =
  status :: nat
  original :: jstring
  preprocessed :: jstring
  translated :: jstring
  res_targetLanguage :: string
  res_confidence :: "nat option"
  preprocessing :: Flags
  res_detectedLanguage :: string

definition no_flags :: Flags where
  "no_flags = \<lparr>hadShortforms = False, hadSlang = False, hadSarcasm = False\<rparr>"

text \<open>The record the route writes: \<open>"${processedText.trim()}","${translationResult.translatedText.trim()}"\n\<close>\<close>

definition csv_record :: "jstring \<Rightarrow> jstring \<Rightarrow> jstring" where
  "csv_record processedText resultText =
     [QUOTE] @ trim processedText @ [QUOTE, COMMA, QUOTE] @ trim resultText @ [QUOTE, LF]"

text \<open>
  The cache update of the route. Its \<open>try\<close> block tests the file, reads it, scans it
  and appends; whatever is raised there leads to the \<open>catch\<close> block, which writes the
  file anew with the one record and is not itself guarded.
\<close>

definition csv_update ::
  "env \<Rightarrow> jstring \<Rightarrow> string \<Rightarrow> string \<Rightarrow> jstring \<Rightarrow> world \<Rightarrow> (js_error + unit) \<times> world" where
  "csv_update env processedText detectedLanguage targetLanguage resultText w =
     (if resultText \<noteq> [] \<and>
         toLowerCase env (trim resultText) \<noteq> toLowerCase env (trim processedText)
      then
        (let csvFile = pairFile detectedLanguage targetLanguage;
             line = csv_record processedText resultText
         in case existsSync csvFile w of
              (False, w1) \<Rightarrow>
                (case appendFileSync env csvFile line w1 of
                   (Inl _, w2) \<Rightarrow> writeFileSync env csvFile line w2
                 | (Inr _, w2) \<Rightarrow> (Inr (), w2))
            | (True, w1) \<Rightarrow>
                (case readFileSync env csvFile w1 of
                   (Inl _, w2) \<Rightarrow> writeFileSync env csvFile line w2
                 | (Inr csv, w2) \<Rightarrow>
                     if src_present (toLowerCase env) (toLowerCase env (trim processedText))
                          (split_lines csv)
                     then (Inr (), w2)
                     else (case appendFileSync env csvFile line w2 of
                             (Inl _, w3) \<Rightarrow> writeFileSync env csvFile line w3
                           | (Inr _, w3) \<Rightarrow> (Inr (), w3))))
      else (Inr (), w))"

text \<open>The answer of the outer \<open>catch\<close>: status 500 and the request's text in every text field.\<close>

definition fallback :: "Request \<Rightarrow> Response" where
  "fallback req =
     \<lparr>status = 500, original = req_text req, preprocessed = req_text req,
      translated = req_text req, res_targetLanguage = req_targetLanguage req,
      res_confidence = Some 0, preprocessing = no_flags, res_detectedLanguage = ''en''\<rparr>"

definition preprocess_step :: "env \<Rightarrow> Request \<Rightarrow> js_error + jstring \<times> Flags" where
  "preprocess_step env req =
     (if req_enablePreprocessing req = Some False then Inr (req_text req, no_flags)
      else preprocessText env (req_text req))"

definition detect_step :: "jstring \<Rightarrow> string" where
  "detect_step processedText =
     (let l = language (detectLanguage processedText) in if l = [] then ''en'' else l)"

definition translate_route :: "env \<Rightarrow> Request \<Rightarrow> world \<Rightarrow> Response \<times> world" where
  "translate_route env req w =
     (case preprocess_step env req of
        Inl _ \<Rightarrow> (fallback req, w)
      | Inr (processedText, flags) \<Rightarrow>
          (let detected = detect_step processedText
           in case translateText env processedText (Str (req_targetLanguage req)) (Some detected) w of
                (Inl _, w1) \<Rightarrow> (fallback req, w1)
              | (Inr translationResult, w1) \<Rightarrow>
                  (case csv_update env processedText detected (req_targetLanguage req)
                          (translatedText translationResult) w1 of
                     (Inl _, w2) \<Rightarrow> (fallback req, w2)
                   | (Inr _, w2) \<Rightarrow>
                       (\<lparr>status = 200, original = req_text req, preprocessed = processedText,
                         translated = translatedText translationResult,
                         res_targetLanguage = req_targetLanguage req,
                         res_confidence = None, preprocessing = flags,
                         res_detectedLanguage = detected\<rparr>, w2))))"

section \<open>Concurrent calls of \<open>loadModel\<close>\<close>

text \<open>
  JavaScript runs each piece of an async function between two \<open>await\<close>s without
  interruption. Calls of \<open>loadModel\<close> that are in flight together therefore interleave
  as whole pieces: a call entering (\<open>Call\<close>), the pipeline's promise settling
  (\<open>Settle\<close>), and a waiting call resuming once the promise is settled (\<open>Resume\<close>). A
  schedule is any list of these events; \<open>waiting\<close> counts the calls suspended at the
  \<open>await\<close>, \<open>returned\<close> and \<open>raised\<close> the calls that have ended.
\<close>

datatype sched_event = Call | Settle bool | Resume

record sched =
  sw :: world
  waiting :: nat
  returned :: nat
  raised :: nat

fun sched_step :: "sched \<Rightarrow> sched_event \<Rightarrow> sched" where
  "sched_step s Call =
     (case loadModel_enter (sw s) of
        (True, w1) \<Rightarrow> s\<lparr>sw := w1, waiting := Suc (waiting s)\<rparr>
      | (False, w1) \<Rightarrow> s\<lparr>sw := w1, returned := Suc (returned s)\<rparr>)"
| "sched_step s (Settle ok) = s\<lparr>sw := settle ok (sw s)\<rparr>"
| "sched_step s Resume =
     (if waiting s = 0 \<or> translatorPromise (sw s) = None \<or> translatorPromise (sw s) = Some Pending
      then s
      else (case loadModel_resume (sw s) of
              (Inr _, w1) \<Rightarrow> s\<lparr>sw := w1, waiting := waiting s - 1, returned := Suc (returned s)\<rparr>
            | (Inl _, w1) \<Rightarrow> s\<lparr>sw := w1, waiting := waiting s - 1, raised := Suc (raised s)\<rparr>))"

definition run_sched :: "sched \<Rightarrow> sched_event list \<Rightarrow> sched" where
  "run_sched s es = foldl sched_step s es"

definition pipeline_loads :: "world \<Rightarrow> nat" where
  "pipeline_loads w = length (filter (\<lambda>e. e = PipelineLoad) (trace w))"

text \<open>
  What every schedule keeps: the pipeline was called once if the promise is there and
  never otherwise, and an instance is stored only when the promise is fulfilled.
\<close>

definition sched_inv :: "sched \<Rightarrow> bool" where
  "sched_inv s \<longleftrightarrow>
     pipeline_loads (sw s) = (if translatorPromise (sw s) = None then 0 else 1)
     \<and> (translator (sw s) \<longrightarrow> translatorPromise (sw s) = Some Fulfilled)"

definition unloaded :: "sched \<Rightarrow> bool" where
  "unloaded s \<longleftrightarrow>
     \<not> translator (sw s) \<and> translatorPromise (sw s) = None \<and> pipeline_loads (sw s) = 0
     \<and> waiting s = 0"

section \<open>Sample hosts and worlds\<close>

text \<open>
  Concrete values on which the definitions are evaluated: an ASCII lower-casing, a
  translator that knows one word and echoes every other text, a host without faults,
  and a world with no file and no model loaded.
\<close>

definition lower_ascii :: "jstring \<Rightarrow> jstring" where
  "lower_ascii s = map (\<lambda>c. if 0x41 \<le> c \<and> c \<le> 0x5A then c + 0x20 else c) s"

definition NAMASTE :: jstring where
  "NAMASTE = [0x0928, 0x092E, 0x0938, 0x094D, 0x0924, 0x0947]"

definition SUPRABHAT :: jstring where
  "SUPRABHAT = [0x0938, 0x0941, 0x092A, 0x094D, 0x0930, 0x092D, 0x093E, 0x0924]"

definition sample_model ::
  "jstring \<Rightarrow> js_member \<Rightarrow> js_member \<Rightarrow> js_error + jstring option list" where
  "sample_model text src tgt = (if text = js ''hello'' then Inr [Some NAMASTE] else Inr [Some text])"

definition host :: env where
  "host = \<lparr>toLowerCase = lower_ascii, pipeline_ok = True, model = sample_model,
           readdir_fails = False, read_fails = (\<lambda>_. False), append_fails = (\<lambda>_. False),
           write_fails = (\<lambda>_. False), preprocessText = (\<lambda>t. Inr (t, no_flags))\<rparr>"

definition blank :: world where
  "blank = \<lparr>files = Map.empty, translator = False, translatorPromise = None, trace = []\<rparr>"


definition cached :: world where
  "cached = blank\<lparr>files := [''en-hi.csv'' \<mapsto> csv_record (js ''hello'') (js ''namaste'')]\<rparr>"

definition fresh :: sched where
  "fresh = \<lparr>sw = blank, waiting = 0, returned = 0, raised = 0\<rparr>"

definition engine_down :: env where
  "engine_down = host\<lparr>model := (\<lambda>_ _ _. Inl TranslatorError)\<rparr>"

definition disk_full :: env where
  "disk_full = host\<lparr>append_fails := (\<lambda>_. True), write_fails := (\<lambda>_. True)\<rparr>"

definition append_denied :: env where
  "append_denied = host\<lparr>append_fails := (\<lambda>_. True)\<rparr>"

definition idioms :: world where
  "idioms = blank\<lparr>files := [''en-hi-idioms.csv'' \<mapsto> csv_record (js ''good morning'') SUPRABHAT]\<rparr>"

definition hello_request :: Request where
  "hello_request = \<lparr>req_text = js ''hello'', req_targetLanguage = ''hi'', req_enablePreprocessing = None\<rparr>"

definition morning_request :: Request where
  "morning_request = \<lparr>req_text = js ''good morning'', req_targetLanguage = ''hi'',
                        req_enablePreprocessing = None\<rparr>"

definition half :: world where
  "half = blank\<lparr>files := [''en-hi.csv'' \<mapsto> js ''hello'' @ [LF]]\<rparr>"

definition comma_model ::
  "jstring \<Rightarrow> js_member \<Rightarrow> js_member \<Rightarrow> js_error + jstring option list" where
  "comma_model text src tgt = Inr [Some (NAMASTE @ js '', '' @ NAMASTE)]"

definition comma_host :: env where
  "comma_host = host\<lparr>model := comma_model\<rparr>"

definition comma_request :: Request where
  "comma_request = \<lparr>req_text = js ''hello, hello'', req_targetLanguage = ''hi'',
                     req_enablePreprocessing = None\<rparr>"

definition unterminated :: world where
  "unterminated = blank\<lparr>files := [''en-hi.csv'' \<mapsto> js ''x,y'']\<rparr>"

definition after_hello :: world where
  "after_hello =
     \<lparr>files = [''en-hi.csv'' \<mapsto> csv_record (js ''hello'') NAMASTE],
      translator = True, translatorPromise = Some Fulfilled,
      trace = [ReadFile ''en-hi-idioms.csv'', ReadDir, PipelineLoad,
               Translate (js ''hello'') (Code ''eng_Latn'') (Code ''hin_Deva''),
               Exists ''en-hi.csv'', AppendFile ''en-hi.csv'' (csv_record (js ''hello'') NAMASTE)]\<rparr>"

text \<open>
  A translator that answers every text with the one word, and a request whose text
  starts with a high surrogate that has no partner (in JSON, \<open>"\ud800abc"\<close>).
\<close>

definition fixed_model ::
  "jstring \<Rightarrow> js_member \<Rightarrow> js_member \<Rightarrow> js_error + jstring option list" where
  "fixed_model text src tgt = Inr [Some NAMASTE]"

definition fixed_host :: env where
  "fixed_host = host\<lparr>model := fixed_model\<rparr>"

definition lone_request :: Request where
  "lone_request = \<lparr>req_text = 0xD800 # js ''abc'', req_targetLanguage = ''hi'',
                    req_enablePreprocessing = None\<rparr>"

section \<open>Facts about strings\<close>

lemma trim_Nil_iff: "trim s = [] \<longleftrightarrow> (\<forall>c\<in>set s. isWhiteSpace c)"
proof
  assume "trim s = []"
  then have a: "dropWhile isWhiteSpace (rev (dropWhile isWhiteSpace s)) = []"
    by (simp add: trim_def)
  show "\<forall>c\<in>set s. isWhiteSpace c"
  proof (cases "dropWhile isWhiteSpace s = []")
    case True
    then show ?thesis by (simp add: dropWhile_eq_Nil_conv)
  next
    case False
    then have "\<not> isWhiteSpace (hd (dropWhile isWhiteSpace s))"
      by (rule hd_dropWhile)
    moreover have "hd (dropWhile isWhiteSpace s) \<in> set (rev (dropWhile isWhiteSpace s))"
      using False by simp
    ultimately show ?thesis using a by (auto simp: dropWhile_eq_Nil_conv)
  qed
next
  assume "\<forall>c\<in>set s. isWhiteSpace c"
  then show "trim s = []" by (auto simp: trim_def dest: set_dropWhileD)
qed

section \<open>Language detection\<close>

lemma ws_not_script:
  "isWhiteSpace c \<Longrightarrow> \<not> isTamil c \<and> \<not> isTelugu c \<and> \<not> isDevanagari c"
  unfolding isWhiteSpace_def isTamil_def isTelugu_def isDevanagari_def
  by (auto simp: word_le_def word_less_def)

lemma script_disjoint:
  "isTamil c \<Longrightarrow> \<not> isTelugu c \<and> \<not> isDevanagari c"
  "isTelugu c \<Longrightarrow> \<not> isTamil c \<and> \<not> isDevanagari c"
  "isDevanagari c \<Longrightarrow> \<not> isTamil c \<and> \<not> isTelugu c"
  unfolding isTamil_def isTelugu_def isDevanagari_def
  by (auto simp: word_le_def)

lemma detectLanguage_chain:
  "detectLanguage text =
     (if \<exists>c\<in>set text. isTamil c then \<lparr>language = ''ta'', confidence = 1\<rparr>
      else if \<exists>c\<in>set text. isTelugu c then \<lparr>language = ''te'', confidence = 1\<rparr>
      else if \<exists>c\<in>set text. isDevanagari c then \<lparr>language = ''hi'', confidence = 0.8\<rparr>
      else \<lparr>language = ''en'', confidence = 0.5\<rparr>)"
  by (simp add: detectLanguage_def tamilRegex_def teluguRegex_def hindiRegex_def list_ex_iff)

text \<open>
  C8. \<open>detectLanguage\<close> tests the Tamil range, then the Telugu range, then the
  Devanagari range, then takes the default: its answer is that of the first range of
  which the text holds a code unit. Hence a non-empty text of Tamil code units only gives
  \<open>ta\<close> with confidence 1, one of Telugu code units only gives \<open>te\<close> with confidence 1,
  one of Devanagari code units only gives \<open>hi\<close> with confidence 0.8, and any other
  text of the chain, that is one with no code unit in the three ranges, the empty and the
  whitespace-only text among them, gives \<open>en\<close> with confidence 0.5. The answer is never
  \<open>mr\<close>.
\<close>

theorem detectLanguage_priority:
  "detectLanguage text =
     (if \<exists>c\<in>set text. isTamil c then \<lparr>language = ''ta'', confidence = 1\<rparr>
      else if \<exists>c\<in>set text. isTelugu c then \<lparr>language = ''te'', confidence = 1\<rparr>
      else if \<exists>c\<in>set text. isDevanagari c then \<lparr>language = ''hi'', confidence = 0.8\<rparr>
      else \<lparr>language = ''en'', confidence = 0.5\<rparr>)
   \<and> (text \<noteq> [] \<and> (\<forall>c\<in>set text. isTamil c) \<longrightarrow>
        detectLanguage text = \<lparr>language = ''ta'', confidence = 1\<rparr>)
   \<and> (text \<noteq> [] \<and> (\<forall>c\<in>set text. isTelugu c) \<longrightarrow>
        detectLanguage text = \<lparr>language = ''te'', confidence = 1\<rparr>)
   \<and> (text \<noteq> [] \<and> (\<forall>c\<in>set text. isDevanagari c) \<longrightarrow>
        detectLanguage text = \<lparr>language = ''hi'', confidence = 0.8\<rparr>)
   \<and> ((\<forall>c\<in>set text. \<not> isTamil c \<and> \<not> isTelugu c \<and> \<not> isDevanagari c) \<longrightarrow>
        detectLanguage text = \<lparr>language = ''en'', confidence = 0.5\<rparr>)
   \<and> (trim text = [] \<longrightarrow> detectLanguage text = \<lparr>language = ''en'', confidence = 0.5\<rparr>)
   \<and> language (detectLanguage text) \<noteq> ''mr''"
proof (intro conjI impI)
  show "detectLanguage text =
     (if \<exists>c\<in>set text. isTamil c then \<lparr>language = ''ta'', confidence = 1\<rparr>
      else if \<exists>c\<in>set text. isTelugu c then \<lparr>language = ''te'', confidence = 1\<rparr>
      else if \<exists>c\<in>set text. isDevanagari c then \<lparr>language = ''hi'', confidence = 0.8\<rparr>
      else \<lparr>language = ''en'', confidence = 0.5\<rparr>)"
    by (rule detectLanguage_chain)
next
  assume "text \<noteq> [] \<and> (\<forall>c\<in>set text. isTamil c)"
  then have "\<exists>c\<in>set text. isTamil c" by (cases "text") auto
  then show "detectLanguage text = \<lparr>language = ''ta'', confidence = 1\<rparr>"
    by (simp add: detectLanguage_chain)
next
  assume a: "text \<noteq> [] \<and> (\<forall>c\<in>set text. isTelugu c)"
  then have "\<exists>c\<in>set text. isTelugu c" by (cases "text") auto
  moreover have "\<not> (\<exists>c\<in>set text. isTamil c)" using a script_disjoint(2) by blast
  ultimately show "detectLanguage text = \<lparr>language = ''te'', confidence = 1\<rparr>"
    by (simp add: detectLanguage_chain)
next
  assume a: "text \<noteq> [] \<and> (\<forall>c\<in>set text. isDevanagari c)"
  then have "\<exists>c\<in>set text. isDevanagari c" by (cases "text") auto
  moreover have "\<not> (\<exists>c\<in>set text. isTamil c)" "\<not> (\<exists>c\<in>set text. isTelugu c)"
    using a script_disjoint(3) by blast+
  ultimately show "detectLanguage text = \<lparr>language = ''hi'', confidence = 0.8\<rparr>"
    by (simp add: detectLanguage_chain)
next
  assume "\<forall>c\<in>set text. \<not> isTamil c \<and> \<not> isTelugu c \<and> \<not> isDevanagari c"
  then show "detectLanguage text = \<lparr>language = ''en'', confidence = 0.5\<rparr>"
    by (simp add: detectLanguage_chain)
next
  assume "trim text = []"
  then have "\<forall>c\<in>set text. \<not> isTamil c \<and> \<not> isTelugu c \<and> \<not> isDevanagari c"
    using ws_not_script by (simp add: trim_Nil_iff)
  then show "detectLanguage text = \<lparr>language = ''en'', confidence = 0.5\<rparr>"
    by (simp add: detectLanguage_chain)
next
  show "language (detectLanguage text) \<noteq> ''mr''"
    by (simp add: detectLanguage_chain)
qed

theorem detectLanguage_priority_witness:
  "detectLanguage [0x0BA4, 0x0BAE] = \<lparr>language = ''ta'', confidence = 1\<rparr>
   \<and> detectLanguage [0x0C24, 0x0C46] = \<lparr>language = ''te'', confidence = 1\<rparr>
   \<and> detectLanguage [0x0939, 0x093F] = \<lparr>language = ''hi'', confidence = 0.8\<rparr>
   \<and> detectLanguage (js ''hello'') = \<lparr>language = ''en'', confidence = 0.5\<rparr>
   \<and> detectLanguage (js ''  '') = \<lparr>language = ''en'', confidence = 0.5\<rparr>"
proof -
  have ta: "[0x0BA4, 0x0BAE] \<noteq> ([] :: jstring) \<and> (\<forall>c\<in>set [0x0BA4, 0x0BAE]. isTamil c)"
    by (simp add: isTamil_def)
  have te: "[0x0C24, 0x0C46] \<noteq> ([] :: jstring) \<and> (\<forall>c\<in>set [0x0C24, 0x0C46]. isTelugu c)"
    by (simp add: isTelugu_def)
  have hi: "[0x0939, 0x093F] \<noteq> ([] :: jstring) \<and> (\<forall>c\<in>set [0x0939, 0x093F]. isDevanagari c)"
    by (simp add: isDevanagari_def)
  have en: "\<forall>c\<in>set (js ''hello''). \<not> isTamil c \<and> \<not> isTelugu c \<and> \<not> isDevanagari c"
    by (simp add: js_def isTamil_def isTelugu_def isDevanagari_def)
  have ws: "trim (js ''  '') = []"
    by (simp add: js_def trim_def isWhiteSpace_def)
  note t = detectLanguage_priority
  from t [of "[0x0BA4, 0x0BAE]"] ta
  have 1: "detectLanguage [0x0BA4, 0x0BAE] = \<lparr>language = ''ta'', confidence = 1\<rparr>" by blast
  from t [of "[0x0C24, 0x0C46]"] te
  have 2: "detectLanguage [0x0C24, 0x0C46] = \<lparr>language = ''te'', confidence = 1\<rparr>" by blast
  from t [of "[0x0939, 0x093F]"] hi
  have 3: "detectLanguage [0x0939, 0x093F] = \<lparr>language = ''hi'', confidence = 0.8\<rparr>" by blast
  from t [of "js ''hello''"] en
  have 4: "detectLanguage (js ''hello'') = \<lparr>language = ''en'', confidence = 0.5\<rparr>" by blast
  from t [of "js ''  ''"] ws
  have 5: "detectLanguage (js ''  '') = \<lparr>language = ''en'', confidence = 0.5\<rparr>" by blast
  from 1 2 3 4 5 show ?thesis by blast
qed

section \<open>The short circuit and the options object\<close>

lemma csv_update_same: "csv_update env t d l t w = (Inr (), w)"
  by (simp add: csv_update_def)

lemma translateText_short:
  "trim t = [] \<or> src = tgt \<Longrightarrow>
   translateText env t (Str tgt) (Some src) w = (Inr \<lparr>translatedText = t\<rparr>, w)"
  by (auto simp: translateText_def resolve_languages_def)

text \<open>
  C6. With the same code for source and target, \<open>translateText\<close> returns the text as
  it is; so it does for every empty or whitespace-only text, whatever the languages
  (given as codes, as an options object, or left out). In both cases the world comes back
  as it was: no file was read (no idiom lookup, no phrase lookup), the model was neither
  loaded nor called, nothing was written. The route's cache update writes nothing either
  when the result is the text it was given: a request whose preprocessed text is blank,
  or whose detected language is the target language, is answered with that text and
  leaves the world as it was.
\<close>

theorem same_language_short_circuit:
  "translateText env t (Str lang) (Some lang) w = (Inr \<lparr>translatedText = t\<rparr>, w)
   \<and> (trim t = [] \<and> target \<noteq> Null \<longrightarrow>
        translateText env t target source w = (Inr \<lparr>translatedText = t\<rparr>, w))
   \<and> csv_update env t d l t w = (Inr (), w)
   \<and> (preprocess_step env req = Inr (p, flags) \<and>
        (trim p = [] \<or> detect_step p = req_targetLanguage req) \<longrightarrow>
        translate_route env req w =
          (\<lparr>status = 200, original = req_text req, preprocessed = p, translated = p,
            res_targetLanguage = req_targetLanguage req, res_confidence = None,
            preprocessing = flags, res_detectedLanguage = detect_step p\<rparr>, w))"
proof (intro conjI impI)
  show "translateText env t (Str lang) (Some lang) w = (Inr \<lparr>translatedText = t\<rparr>, w)"
    by (simp add: translateText_short)
  show "translateText env t target source w = (Inr \<lparr>translatedText = t\<rparr>, w)"
    if "trim t = [] \<and> target \<noteq> Null"
    using that by (cases target) (auto simp: translateText_def resolve_languages_def)
  show "csv_update env t d l t w = (Inr (), w)"
    by (rule csv_update_same)
  assume a: "preprocess_step env req = Inr (p, flags) \<and>
        (trim p = [] \<or> detect_step p = req_targetLanguage req)"
  then have "translateText env p (Str (req_targetLanguage req)) (Some (detect_step p)) w
               = (Inr \<lparr>translatedText = p\<rparr>, w)"
    by (intro translateText_short) blast
  then show "translate_route env req w =
          (\<lparr>status = 200, original = req_text req, preprocessed = p, translated = p,
            res_targetLanguage = req_targetLanguage req, res_confidence = None,
            preprocessing = flags, res_detectedLanguage = detect_step p\<rparr>, w)"
    using a by (simp add: translate_route_def csv_update_same)
qed

theorem same_language_short_circuit_witness:
  "translateText host (js ''  '') (Str ''hi'') (Some ''en'') blank
     = (Inr \<lparr>translatedText = js ''  ''\<rparr>, blank)
   \<and> translate_route host
        \<lparr>req_text = js ''hello'', req_targetLanguage = ''en'', req_enablePreprocessing = None\<rparr>
        blank
       = (\<lparr>status = 200, original = js ''hello'', preprocessed = js ''hello'',
           translated = js ''hello'', res_targetLanguage = ''en'', res_confidence = None,
           preprocessing = no_flags, res_detectedLanguage = ''en''\<rparr>, blank)"
proof -
  let ?req = "\<lparr>req_text = js ''hello'', req_targetLanguage = ''en'',
                req_enablePreprocessing = None\<rparr>"
  have h: "trim (js ''  '') = [] \<and> Str ''hi'' \<noteq> Null"
    by (simp add: js_def trim_def isWhiteSpace_def)
  have d: "detect_step (js ''hello'') = ''en''"
    by (simp add: detect_step_def detectLanguage_def tamilRegex_def teluguRegex_def
        hindiRegex_def isTamil_def isTelugu_def isDevanagari_def js_def)
  have g: "preprocess_step host ?req = Inr (js ''hello'', no_flags) \<and>
        (trim (js ''hello'') = [] \<or> detect_step (js ''hello'') = req_targetLanguage ?req)"
    by (simp add: preprocess_step_def host_def d)
  note t = same_language_short_circuit
  from t [THEN conjunct2, THEN conjunct1, rule_format, OF h]
  have 1: "translateText host (js ''  '') (Str ''hi'') (Some ''en'') blank
     = (Inr \<lparr>translatedText = js ''  ''\<rparr>, blank)" .
  from t [THEN conjunct2, THEN conjunct2, THEN conjunct2, rule_format, OF g]
  have 2: "translate_route host ?req blank
       = (\<lparr>status = 200, original = js ''hello'', preprocessed = js ''hello'',
           translated = js ''hello'', res_targetLanguage = ''en'', res_confidence = None,
           preprocessing = no_flags, res_detectedLanguage = ''en''\<rparr>, blank)"
    by (simp add: d)
  from 1 2 show ?thesis by blast
qed

section \<open>Evaluation on the samples\<close>

lemmas string_defs = js_def QUOTE_def COMMA_def LF_def CR_def trim_def isWhiteSpace_def
  strip_quotes_def csv_fields_def csv_record_def lower_ascii_def
lemmas io_defs = emit_def readdirSync_def existsSync_def readFileSync_def appendFileSync_def
  writeFileSync_def isHigh_def isLow_def
lemmas engine_defs = loadModel_def loadModel_enter_def loadModel_resume_def settle_def
  localTranslate_def localPromise_def nllb_code_def nllbLangMap_get_def nllbLangMap_def
  object_prototype_def sample_model_def NAMASTE_def
lemmas lookup_defs = idiomFile_def lookupCulturalIdiom_def pairFile_def getPhraseFromCSV_def
lemmas sample_defs = host_def blank_def no_flags_def

section \<open>The local translator\<close>

lemma emit_fields [simp]:
  "translator (emit e w) = translator w"
  "translatorPromise (emit e w) = translatorPromise w"
  "files (emit e w) = files w"
  "trace (emit e w) = trace w @ [e]"
  by (simp_all add: emit_def)

lemma loadModel_loaded: "translator w \<Longrightarrow> loadModel env w = (Inr (), w)"
  by (simp add: loadModel_def loadModel_enter_def)

lemma loadModel_Inr_translator: "loadModel env w = (Inr u, w1) \<Longrightarrow> translator w1"
  by (auto simp: loadModel_def loadModel_enter_def loadModel_resume_def settle_def emit_def
      split: if_splits)

lemma translation_text_or_nonempty: "text \<noteq> [] \<Longrightarrow> translation_text_or r text \<noteq> []"
  by (induction r "text" rule: translation_text_or.induct) auto

lemma localTranslate_nonempty:
  "localTranslate env text s t w = (Inr r, w1) \<Longrightarrow> text \<noteq> [] \<Longrightarrow> r \<noteq> []"
  by (auto simp: localTranslate_def Let_def translation_text_or_nonempty
      split: prod.splits sum.splits)

lemma localPromise_nonempty:
  "localPromise env text s t w = (Inr r, w1) \<Longrightarrow> text \<noteq> [] \<Longrightarrow> r \<noteq> []"
  by (auto simp: localPromise_def split: if_splits prod.splits sum.splits
      dest: localTranslate_nonempty)

lemma localTranslate_ok:
  "loadModel env w = (Inr (), w1) \<Longrightarrow>
   localTranslate env text s t w =
     (case model env text (nllb_code s) (nllb_code t) of
        Inl e \<Rightarrow> Inl e | Inr r \<Rightarrow> Inr (translation_text_or r text),
      emit (Translate text (nllb_code s) (nllb_code t)) w1)"
  by (simp add: localTranslate_def Let_def split: sum.splits)

lemma nllb_code_en: "nllb_code ''en'' = Code ''eng_Latn''"
  by (simp add: nllb_code_def nllbLangMap_get_def nllbLangMap_def)

lemma nllb_code_own:
  "nllb_code ''hi'' = Code ''hin_Deva''" "nllb_code ''mr'' = Code ''mar_Deva''"
  "nllb_code ''ta'' = Code ''tam_Taml''" "nllb_code ''te'' = Code ''tel_Telu''"
  by (simp_all add: nllb_code_def nllbLangMap_get_def nllbLangMap_def)

lemma nllb_code_inherited: "lang \<in> set object_prototype \<Longrightarrow> nllb_code lang = Inherited lang"
  by (auto simp: nllb_code_def nllbLangMap_get_def nllbLangMap_def object_prototype_def)

lemma nllb_code_other:
  "lang \<notin> {''en'', ''hi'', ''mr'', ''te'', ''ta''} \<Longrightarrow> lang \<notin> set object_prototype \<Longrightarrow>
   nllb_code lang = Code ''eng_Latn''"
  by (simp add: nllb_code_def nllbLangMap_get_def nllbLangMap_def)

text \<open>
  C7. Once the model is loaded (or loads), the translation step of the orchestrator
  calls the translator twice when neither language is English, first from the source to
  English, then from English to the target on the text the first call returned, and
  yields the second text only; when an end is English it calls the translator once. The
  log of effects shows exactly these calls, and each holds as long as the translator
  answers. The five codes go to their NLLB codes, and a code that is neither one of them
  nor a name of \<open>Object.prototype\<close> goes to the code of English. The names of
  \<open>Object.prototype\<close> escape the fallback: for \<open>constructor\<close> the lookup yields
  the inherited member, and that member, not the code of English, is what the translator
  is given.
\<close>

theorem pivot_through_english:
  assumes "loadModel env w = (Inr (), w1)"
  shows
   "(src \<noteq> ''en'' \<and> tgt \<noteq> ''en'' \<and>
       model env text (nllb_code src) (Code ''eng_Latn'') = Inr r1 \<and>
       model env (translation_text_or r1 text) (Code ''eng_Latn'') (nllb_code tgt) = Inr r2
     \<longrightarrow> localPromise env text src tgt w =
           (Inr (translation_text_or r2 (translation_text_or r1 text)),
            emit (Translate (translation_text_or r1 text) (Code ''eng_Latn'') (nllb_code tgt))
              (emit (Translate text (nllb_code src) (Code ''eng_Latn'')) w1)))
    \<and> ((src = ''en'' \<or> tgt = ''en'') \<and> model env text (nllb_code src) (nllb_code tgt) = Inr r
        \<longrightarrow> localPromise env text src tgt w =
              (Inr (translation_text_or r text),
               emit (Translate text (nllb_code src) (nllb_code tgt)) w1))
    \<and> nllb_code ''en'' = Code ''eng_Latn'' \<and> nllb_code ''hi'' = Code ''hin_Deva''
    \<and> nllb_code ''mr'' = Code ''mar_Deva'' \<and> nllb_code ''ta'' = Code ''tam_Taml''
    \<and> nllb_code ''te'' = Code ''tel_Telu''
    \<and> (lang \<notin> {''en'', ''hi'', ''mr'', ''te'', ''ta''} \<and> lang \<notin> set object_prototype
        \<longrightarrow> nllb_code lang = Code ''eng_Latn'')
    \<and> (lang \<in> set object_prototype \<longrightarrow> nllb_code lang = Inherited lang)
    \<and> nllb_code ''constructor'' = Inherited ''constructor''"
proof (intro conjI impI)
  assume a: "src \<noteq> ''en'' \<and> tgt \<noteq> ''en'' \<and>
       model env text (nllb_code src) (Code ''eng_Latn'') = Inr r1 \<and>
       model env (translation_text_or r1 text) (Code ''eng_Latn'') (nllb_code tgt) = Inr r2"
  let ?w2 = "emit (Translate text (nllb_code src) (Code ''eng_Latn'')) w1"
  have first: "localTranslate env text src ''en'' w = (Inr (translation_text_or r1 text), ?w2)"
    using a by (simp add: localTranslate_ok [OF assms] nllb_code_en)
  have "translator ?w2" using loadModel_Inr_translator [OF assms] by simp
  then have "loadModel env ?w2 = (Inr (), ?w2)" by (rule loadModel_loaded)
  then have second: "localTranslate env (translation_text_or r1 text) ''en'' tgt ?w2 =
      (Inr (translation_text_or r2 (translation_text_or r1 text)),
       emit (Translate (translation_text_or r1 text) (Code ''eng_Latn'') (nllb_code tgt)) ?w2)"
    using a by (simp add: localTranslate_ok nllb_code_en)
  show "localPromise env text src tgt w =
           (Inr (translation_text_or r2 (translation_text_or r1 text)),
            emit (Translate (translation_text_or r1 text) (Code ''eng_Latn'') (nllb_code tgt)) ?w2)"
    using a first second by (simp add: localPromise_def)
next
  assume "(src = ''en'' \<or> tgt = ''en'') \<and> model env text (nllb_code src) (nllb_code tgt) = Inr r"
  then show "localPromise env text src tgt w =
              (Inr (translation_text_or r text),
               emit (Translate text (nllb_code src) (nllb_code tgt)) w1)"
    by (auto simp: localPromise_def localTranslate_ok [OF assms])
next
  assume "lang \<notin> {''en'', ''hi'', ''mr'', ''te'', ''ta''} \<and> lang \<notin> set object_prototype"
  then show "nllb_code lang = Code ''eng_Latn''"
    by (simp add: nllb_code_other)
next
  assume "lang \<in> set object_prototype"
  then show "nllb_code lang = Inherited lang" by (rule nllb_code_inherited)
next
  show "nllb_code ''constructor'' = Inherited ''constructor''"
    by (rule nllb_code_inherited) (simp add: object_prototype_def)
qed (simp_all add: nllb_code_en nllb_code_own)

theorem pivot_through_english_witness:
  "localPromise host (js ''hello'') ''hi'' ''ta'' blank =
     (Inr NAMASTE,
      \<lparr>files = Map.empty, translator = True, translatorPromise = Some Fulfilled,
       trace = [PipelineLoad, Translate (js ''hello'') (Code ''hin_Deva'') (Code ''eng_Latn''),
                Translate NAMASTE (Code ''eng_Latn'') (Code ''tam_Taml'')]\<rparr>)
   \<and> localPromise host (js ''hello'') ''en'' ''constructor'' blank =
     (Inr NAMASTE,
      \<lparr>files = Map.empty, translator = True, translatorPromise = Some Fulfilled,
       trace = [PipelineLoad,
                Translate (js ''hello'') (Code ''eng_Latn'') (Inherited ''constructor'')]\<rparr>)
   \<and> nllb_code ''xx'' = Code ''eng_Latn''"
proof -
  have load: "loadModel host blank =
     (Inr (), \<lparr>files = Map.empty, translator = True, translatorPromise = Some Fulfilled,
              trace = [PipelineLoad]\<rparr>)"
    by (simp add: engine_defs io_defs sample_defs)
  note t = pivot_through_english [OF load]
  note rest = t [THEN conjunct2, THEN conjunct2]
  note tail = rest [THEN conjunct2, THEN conjunct2, THEN conjunct2, THEN conjunct2,
      THEN conjunct2]
  have c: "nllb_code ''en'' = Code ''eng_Latn''" "nllb_code ''hi'' = Code ''hin_Deva''"
      "nllb_code ''ta'' = Code ''tam_Taml''"
      "nllb_code ''constructor'' = Inherited ''constructor''"
    using rest [THEN conjunct1] rest [THEN conjunct2, THEN conjunct1]
      rest [THEN conjunct2, THEN conjunct2, THEN conjunct2, THEN conjunct1]
      tail [THEN conjunct2, THEN conjunct2]
    by - assumption+
  have h: "''hi'' \<noteq> ''en'' \<and> ''ta'' \<noteq> ''en'' \<and>
       model host (js ''hello'') (nllb_code ''hi'') (Code ''eng_Latn'') = Inr [Some NAMASTE] \<and>
       model host (translation_text_or [Some NAMASTE] (js ''hello'')) (Code ''eng_Latn'')
         (nllb_code ''ta'') = Inr [Some NAMASTE]"
    by (simp add: host_def sample_model_def NAMASTE_def js_def)
  have g: "(''en'' = ''en'' \<or> ''constructor'' = ''en'') \<and>
       model host (js ''hello'') (nllb_code ''en'') (nllb_code ''constructor'') = Inr [Some NAMASTE]"
    by (simp add: host_def sample_model_def)
  have x: "''xx'' \<notin> {''en'', ''hi'', ''mr'', ''te'', ''ta''} \<and> ''xx'' \<notin> set object_prototype"
    by (simp add: object_prototype_def)
  from t [THEN conjunct1, rule_format, OF h]
  have 1: "localPromise host (js ''hello'') ''hi'' ''ta'' blank =
     (Inr NAMASTE,
      \<lparr>files = Map.empty, translator = True, translatorPromise = Some Fulfilled,
       trace = [PipelineLoad, Translate (js ''hello'') (Code ''hin_Deva'') (Code ''eng_Latn''),
                Translate NAMASTE (Code ''eng_Latn'') (Code ''tam_Taml'')]\<rparr>)"
    by (simp add: c emit_def NAMASTE_def)
  from t [THEN conjunct2, THEN conjunct1, rule_format, OF g]
  have 2: "localPromise host (js ''hello'') ''en'' ''constructor'' blank =
     (Inr NAMASTE,
      \<lparr>files = Map.empty, translator = True, translatorPromise = Some Fulfilled,
       trace = [PipelineLoad,
                Translate (js ''hello'') (Code ''eng_Latn'') (Inherited ''constructor'')]\<rparr>)"
    by (simp add: c emit_def NAMASTE_def)
  have 3: "nllb_code ''xx'' = Code ''eng_Latn''"
    using tail [THEN conjunct1, rule_format, OF x] .
  from 1 2 3 show ?thesis by blast
qed

section \<open>Priority of the results\<close>

text \<open>
  C5. A request that stops at the short circuit gets its text back. Otherwise, when the
  idiom table has no hit and the translation step returns a text, that text is never
  empty and the answer is: the phrase-cache value when the lookup found one; else the
  returned text exactly when it differs from the input after trimming and lower-casing;
  else the original text. (What happens when the translation step raises is the subject
  of C2.)
\<close>

theorem phrase_cache_priority:
  "(text = [] \<or> trim text = [] \<or> src = tgt \<longrightarrow>
      translateText env text (Str tgt) (Some src) w = (Inr \<lparr>translatedText = text\<rparr>, w))
   \<and> (\<not> (text = [] \<or> trim text = [] \<or> src = tgt) \<and>
       lookupCulturalIdiom env text src tgt w = (None, w1) \<and>
       getPhraseFromCSV env text src tgt w1 = (phrase, w2) \<and>
       localPromise env text src tgt w2 = (Inr localResult, w3)
      \<longrightarrow> localResult \<noteq> [] \<and>
          translateText env text (Str tgt) (Some src) w =
            (Inr \<lparr>translatedText =
               (case phrase of
                  Some p \<Rightarrow> p
                | None \<Rightarrow>
                    if toLowerCase env (trim localResult) \<noteq> toLowerCase env (trim text)
                    then localResult else text)\<rparr>, w3))"
proof (intro conjI impI)
  assume "text = [] \<or> trim text = [] \<or> src = tgt"
  then show "translateText env text (Str tgt) (Some src) w = (Inr \<lparr>translatedText = text\<rparr>, w)"
    by (auto simp: translateText_def resolve_languages_def)
next
  assume a: "\<not> (text = [] \<or> trim text = [] \<or> src = tgt) \<and>
       lookupCulturalIdiom env text src tgt w = (None, w1) \<and>
       getPhraseFromCSV env text src tgt w1 = (phrase, w2) \<and>
       localPromise env text src tgt w2 = (Inr localResult, w3)"
  then show "localResult \<noteq> []" using localPromise_nonempty by blast
  then show "translateText env text (Str tgt) (Some src) w =
            (Inr \<lparr>translatedText =
               (case phrase of
                  Some p \<Rightarrow> p
                | None \<Rightarrow>
                    if toLowerCase env (trim localResult) \<noteq> toLowerCase env (trim text)
                    then localResult else text)\<rparr>, w3)"
    using a by (simp add: translateText_def resolve_languages_def split: option.splits)
qed

theorem phrase_cache_priority_witness:
  "fst (translateText host (js ''hello'') (Str ''hi'') (Some ''en'') cached)
     = Inr \<lparr>translatedText = js ''namaste''\<rparr>"
proof -
  let ?t = "js ''hello''"
  let ?w1 = "cached\<lparr>trace := [ReadFile ''en-hi-idioms.csv'']\<rparr>"
  let ?w2 = "cached\<lparr>trace := [ReadFile ''en-hi-idioms.csv'', ReadDir, ReadFile ''en-hi.csv'']\<rparr>"
  let ?w3 = "cached\<lparr>translator := True, translatorPromise := Some Fulfilled,
               trace := [ReadFile ''en-hi-idioms.csv'', ReadDir, ReadFile ''en-hi.csv'',
                         PipelineLoad, Translate ?t (Code ''eng_Latn'') (Code ''hin_Deva'')]\<rparr>"
  have i: "lookupCulturalIdiom host ?t ''en'' ''hi'' cached = (None, ?w1)"
    by (simp add: lookup_defs io_defs cached_def sample_defs)
  have p: "getPhraseFromCSV host ?t ''en'' ''hi'' ?w1 = (Some (js ''namaste''), ?w2)"
    by (simp add: lookup_defs io_defs cached_def sample_defs string_defs)
  have e: "localPromise host ?t ''en'' ''hi'' ?w2 = (Inr NAMASTE, ?w3)"
    by (simp add: engine_defs io_defs cached_def sample_defs js_def)
  have n: "\<not> (?t = [] \<or> trim ?t = [] \<or> ''en'' = ''hi'')"
    by (simp add: string_defs)
  from phrase_cache_priority [THEN conjunct2, rule_format, OF conjI [OF n conjI [OF i conjI [OF p e]]]]
  show ?thesis by simp
qed

section \<open>Concurrent first calls\<close>

lemma pipeline_loads_simps [simp]:
  "pipeline_loads (w\<lparr>translatorPromise := p\<rparr>) = pipeline_loads w"
  "pipeline_loads (w\<lparr>translator := b\<rparr>) = pipeline_loads w"
  "pipeline_loads (emit e w) = pipeline_loads w + (if e = PipelineLoad then 1 else 0)"
  by (simp_all add: pipeline_loads_def emit_def)

lemma sched_inv_step: "sched_inv s \<Longrightarrow> sched_inv (sched_step s e)"
  by (cases e)
     (auto simp: sched_inv_def loadModel_enter_def settle_def loadModel_resume_def
       split: if_splits prod.splits sum.splits)

lemma sched_inv_run: "sched_inv s \<Longrightarrow> sched_inv (run_sched s es)"
  unfolding run_sched_def
  by (induction es arbitrary: s) (simp_all add: sched_inv_step)

lemma promise_step:
  "translatorPromise (sw (sched_step s e)) = None \<longleftrightarrow>
     translatorPromise (sw s) = None \<and> (e = Call \<longrightarrow> translator (sw s))"
  by (cases e)
     (auto simp: loadModel_enter_def settle_def loadModel_resume_def
       split: if_splits prod.splits sum.splits)

lemma translator_step: "translator (sw s) \<Longrightarrow> translator (sw (sched_step s e))"
  by (cases e)
     (auto simp: loadModel_enter_def settle_def loadModel_resume_def
       split: if_splits prod.splits sum.splits)

lemma translator_run: "translator (sw s) \<Longrightarrow> translator (sw (run_sched s es))"
  unfolding run_sched_def
  by (induction es arbitrary: s) (simp_all add: translator_step)

lemma promise_run:
  "sched_inv s \<Longrightarrow>
   translatorPromise (sw (run_sched s es)) = None \<longleftrightarrow>
     translatorPromise (sw s) = None \<and> Call \<notin> set es"
proof (induction es arbitrary: s)
  case Nil
  then show ?case by (simp add: run_sched_def)
next
  case (Cons e es)
  have "translatorPromise (sw (run_sched (sched_step s e) es)) = None \<longleftrightarrow>
     translatorPromise (sw (sched_step s e)) = None \<and> Call \<notin> set es"
    by (rule Cons.IH) (rule sched_inv_step [OF Cons.prems])
  moreover have "translatorPromise (sw s) = None \<Longrightarrow> \<not> translator (sw s)"
    using Cons.prems by (auto simp: sched_inv_def)
  ultimately show ?case by (auto simp: run_sched_def promise_step)
qed

lemma loads_run:
  assumes "sched_inv s"
  shows "pipeline_loads (sw (run_sched s es)) =
           (if translatorPromise (sw s) = None \<and> Call \<notin> set es then 0 else 1)"
proof -
  have "sched_inv (run_sched s es)" using assms by (rule sched_inv_run)
  then show ?thesis using promise_run [OF assms, of es] by (auto simp: sched_inv_def)
qed

lemma run_calls:
  "\<not> translator (sw s) \<Longrightarrow>
   waiting (run_sched s (replicate n Call)) = waiting s + n
   \<and> returned (run_sched s (replicate n Call)) = returned s
   \<and> raised (run_sched s (replicate n Call)) = raised s
   \<and> \<not> translator (sw (run_sched s (replicate n Call)))
   \<and> (translatorPromise (sw s) = None \<and> 0 < n \<longrightarrow>
        translatorPromise (sw (run_sched s (replicate n Call))) = Some Pending)
   \<and> (translatorPromise (sw s) = Some Pending \<longrightarrow>
        translatorPromise (sw (run_sched s (replicate n Call))) = Some Pending)"
proof (induction n arbitrary: s)
  case 0
  then show ?case by (simp add: run_sched_def)
next
  case (Suc n)
  let ?s = "sched_step s Call"
  have a: "\<not> translator (sw ?s)" "waiting ?s = Suc (waiting s)" "returned ?s = returned s"
      "raised ?s = raised s"
      "translatorPromise (sw s) = None \<or> translatorPromise (sw s) = Some Pending
         \<Longrightarrow> translatorPromise (sw ?s) = Some Pending"
    using Suc.prems by (auto simp: loadModel_enter_def split: if_splits)
  from Suc.IH [OF a(1)] a show ?case by (auto simp: run_sched_def)
qed

lemma run_resumes:
  "translatorPromise (sw s) = Some Fulfilled \<Longrightarrow> n \<le> waiting s \<Longrightarrow>
   waiting (run_sched s (replicate n Resume)) = waiting s - n
   \<and> returned (run_sched s (replicate n Resume)) = returned s + n
   \<and> raised (run_sched s (replicate n Resume)) = raised s
   \<and> (translator (sw (run_sched s (replicate n Resume))) \<longleftrightarrow> translator (sw s) \<or> 0 < n)"
proof (induction n arbitrary: s)
  case 0
  then show ?case by (simp add: run_sched_def)
next
  case (Suc n)
  let ?s = "sched_step s Resume"
  have a: "translatorPromise (sw ?s) = Some Fulfilled" "waiting ?s = waiting s - 1"
     "returned ?s = Suc (returned s)" "raised ?s = raised s" "translator (sw ?s)"
    using Suc.prems by (auto simp: loadModel_resume_def)
  have "n \<le> waiting ?s" using a(2) Suc.prems by simp
  from Suc.IH [OF a(1) this] a show ?case by (auto simp: run_sched_def)
qed

lemma run_rejects:
  "translatorPromise (sw s) = Some Rejected \<Longrightarrow> n \<le> waiting s \<Longrightarrow>
   waiting (run_sched s (replicate n Resume)) = waiting s - n
   \<and> returned (run_sched s (replicate n Resume)) = returned s
   \<and> raised (run_sched s (replicate n Resume)) = raised s + n
   \<and> translator (sw (run_sched s (replicate n Resume))) = translator (sw s)"
proof (induction n arbitrary: s)
  case 0
  then show ?case by (simp add: run_sched_def)
next
  case (Suc n)
  let ?s = "sched_step s Resume"
  have a: "translatorPromise (sw ?s) = Some Rejected" "waiting ?s = waiting s - 1"
     "returned ?s = returned s" "raised ?s = Suc (raised s)"
     "translator (sw ?s) = translator (sw s)"
    using Suc.prems by (auto simp: loadModel_resume_def)
  have "n \<le> waiting ?s" using a(2) Suc.prems by simp
  from Suc.IH [OF a(1) this] a show ?case by (auto simp: run_sched_def)
qed

text \<open>
  C9. From a state with no model and no promise, whatever the schedule of calls,
  settlements and resumptions, \<open>pipeline\<close> is called exactly once as soon as one call
  was made. Of \<open>n\<close> calls entering together all wait on the one pending promise and no
  instance is stored yet; when the promise is fulfilled, the resuming calls store the
  instance and all \<open>n\<close> return; when it is rejected, all \<open>n\<close> raise, no instance is
  stored and the pipeline is not called again. An instance is stored only from a
  fulfilled promise; once stored it stays stored through every later schedule, and a call
  made then returns at once, without waiting and without a load.
\<close>

theorem single_model_load:
  assumes "unloaded s"
  shows "pipeline_loads (sw (run_sched s es)) = (if Call \<in> set es then 1 else 0)
    \<and> (0 < n \<longrightarrow>
         pipeline_loads (sw (run_sched s (replicate n Call))) = 1 \<and>
         waiting (run_sched s (replicate n Call)) = n \<and>
         translatorPromise (sw (run_sched s (replicate n Call))) = Some Pending \<and>
         \<not> translator (sw (run_sched s (replicate n Call @ [Settle True]))) \<and>
         translator (sw (run_sched s (replicate n Call @ [Settle True] @ replicate n Resume))) \<and>
         translatorPromise
           (sw (run_sched s (replicate n Call @ [Settle True] @ replicate n Resume)))
           = Some Fulfilled \<and>
         waiting (run_sched s (replicate n Call @ [Settle True] @ replicate n Resume)) = 0 \<and>
         returned (run_sched s (replicate n Call @ [Settle True] @ replicate n Resume))
           = returned s + n \<and>
         raised (run_sched s (replicate n Call @ [Settle True] @ replicate n Resume))
           = raised s \<and>
         pipeline_loads (sw (run_sched s (replicate n Call @ [Settle True] @ replicate n Resume))) = 1 \<and>
         \<not> translator (sw (run_sched s (replicate n Call @ [Settle False] @ replicate n Resume))) \<and>
         raised (run_sched s (replicate n Call @ [Settle False] @ replicate n Resume))
           = raised s + n \<and>
         returned (run_sched s (replicate n Call @ [Settle False] @ replicate n Resume))
           = returned s \<and>
         pipeline_loads (sw (run_sched s (replicate n Call @ [Settle False] @ replicate n Resume))) = 1)
    \<and> (translator (sw (run_sched s es)) \<longrightarrow>
         translatorPromise (sw (run_sched s es)) = Some Fulfilled \<and>
         loadModel_enter (sw (run_sched s es)) = (False, sw (run_sched s es)) \<and>
         translator (sw (run_sched s (es @ es'))) \<and>
         pipeline_loads (sw (run_sched s (es @ es'))) = 1)"
proof -
  have i: "sched_inv s" "translatorPromise (sw s) = None" "\<not> translator (sw s)" "waiting s = 0"
    using assms by (simp_all add: unloaded_def sched_inv_def)
  have all: "pipeline_loads (sw (run_sched s fs)) = (if Call \<in> set fs then 1 else 0)" for fs
    using loads_run [OF i(1), of fs] i(2) by auto
  have 2: "pipeline_loads (sw (run_sched s (replicate n Call))) = 1 \<and>
         waiting (run_sched s (replicate n Call)) = n \<and>
         translatorPromise (sw (run_sched s (replicate n Call))) = Some Pending \<and>
         \<not> translator (sw (run_sched s (replicate n Call @ [Settle True]))) \<and>
         translator (sw (run_sched s (replicate n Call @ [Settle True] @ replicate n Resume))) \<and>
         translatorPromise
           (sw (run_sched s (replicate n Call @ [Settle True] @ replicate n Resume)))
           = Some Fulfilled \<and>
         waiting (run_sched s (replicate n Call @ [Settle True] @ replicate n Resume)) = 0 \<and>
         returned (run_sched s (replicate n Call @ [Settle True] @ replicate n Resume))
           = returned s + n \<and>
         raised (run_sched s (replicate n Call @ [Settle True] @ replicate n Resume))
           = raised s \<and>
         pipeline_loads (sw (run_sched s (replicate n Call @ [Settle True] @ replicate n Resume))) = 1 \<and>
         \<not> translator (sw (run_sched s (replicate n Call @ [Settle False] @ replicate n Resume))) \<and>
         raised (run_sched s (replicate n Call @ [Settle False] @ replicate n Resume))
           = raised s + n \<and>
         returned (run_sched s (replicate n Call @ [Settle False] @ replicate n Resume))
           = returned s \<and>
         pipeline_loads (sw (run_sched s (replicate n Call @ [Settle False] @ replicate n Resume))) = 1"
    if n: "0 < n"
  proof -
    let ?a = "run_sched s (replicate n Call)"
    let ?b = "sched_step ?a (Settle True)"
    let ?c = "sched_step ?a (Settle False)"
    let ?okay = "replicate n Call @ [Settle True] @ replicate n Resume"
    let ?fail = "replicate n Call @ [Settle False] @ replicate n Resume"
    have c: "waiting ?a = n" "translatorPromise (sw ?a) = Some Pending" "returned ?a = returned s"
        "raised ?a = raised s" "\<not> translator (sw ?a)"
      using run_calls [OF i(3), of n] i(2,4) n by auto
    have l: "pipeline_loads (sw ?a) = 1" using all [of "replicate n Call"] n by simp
    have b: "translatorPromise (sw ?b) = Some Fulfilled" "waiting ?b = n" "returned ?b = returned s"
        "raised ?b = raised s" "\<not> translator (sw ?b)"
      using c by (simp_all add: settle_def)
    have f: "translatorPromise (sw ?c) = Some Rejected" "waiting ?c = n" "returned ?c = returned s"
        "raised ?c = raised s" "\<not> translator (sw ?c)"
      using c by (simp_all add: settle_def)
    have eb: "run_sched s ?okay = run_sched ?b (replicate n Resume)"
      and ec: "run_sched s ?fail = run_sched ?c (replicate n Resume)"
      and e1: "run_sched s (replicate n Call @ [Settle True]) = ?b"
      by (simp_all add: run_sched_def)
    have rb: "waiting (run_sched ?b (replicate n Resume)) = 0"
        "returned (run_sched ?b (replicate n Resume)) = returned s + n"
        "raised (run_sched ?b (replicate n Resume)) = raised s"
        "translator (sw (run_sched ?b (replicate n Resume)))"
      using run_resumes [OF b(1), of n] b(2,3,4) n by simp_all
    have rc: "returned (run_sched ?c (replicate n Resume)) = returned s"
        "raised (run_sched ?c (replicate n Resume)) = raised s + n"
        "\<not> translator (sw (run_sched ?c (replicate n Resume)))"
      using run_rejects [OF f(1), of n] f(2,3,4,5) by simp_all
    have inv: "sched_inv (run_sched s ?okay)" using i(1) by (rule sched_inv_run)
    have pf: "translatorPromise (sw (run_sched s ?okay)) = Some Fulfilled"
      using inv rb(4) eb by (auto simp: sched_inv_def)
    have lo: "pipeline_loads (sw (run_sched s ?okay)) = 1" "pipeline_loads (sw (run_sched s ?fail)) = 1"
      using all [of ?okay] all [of ?fail] n by simp_all
    show ?thesis
      using c(1,2) l b(5) rb rc pf lo unfolding eb ec e1 by simp
  qed
  have 3: "translatorPromise (sw (run_sched s es)) = Some Fulfilled \<and>
         loadModel_enter (sw (run_sched s es)) = (False, sw (run_sched s es)) \<and>
         translator (sw (run_sched s (es @ es'))) \<and>
         pipeline_loads (sw (run_sched s (es @ es'))) = 1"
    if t: "translator (sw (run_sched s es))"
  proof -
    have inv0: "sched_inv (run_sched s es)" using i(1) by (rule sched_inv_run)
    have inv: "sched_inv (run_sched s (es @ es'))" using i(1) by (rule sched_inv_run)
    have tr: "translator (sw (run_sched s (es @ es')))"
      using translator_run [OF t, of es'] by (simp add: run_sched_def)
    then have "pipeline_loads (sw (run_sched s (es @ es'))) = 1"
      using inv by (auto simp: sched_inv_def split: if_splits)
    then show ?thesis using t tr inv0 by (simp add: loadModel_enter_def sched_inv_def)
  qed
  from all [of es] 2 3 show ?thesis by blast
qed

theorem single_model_load_witness:
  "pipeline_loads (sw (run_sched fresh [Call, Call, Settle True, Call, Resume, Resume, Resume, Call])) = 1
   \<and> returned (run_sched fresh (replicate 3 Call @ [Settle True] @ replicate 3 Resume)) = 3
   \<and> translator (sw (run_sched fresh (replicate 3 Call @ [Settle True] @ replicate 3 Resume)))
   \<and> raised (run_sched fresh (replicate 3 Call @ [Settle False] @ replicate 3 Resume)) = 3"
proof -
  have u: "unloaded fresh"
    by (simp add: unloaded_def fresh_def blank_def pipeline_loads_def)
  have c: "Call \<in> set [Call, Call, Settle True, Call, Resume, Resume, Resume, Call]" by simp
  have p: "(0::nat) < 3" by simp
  from single_model_load [OF u, THEN conjunct1,
      of "[Call, Call, Settle True, Call, Resume, Resume, Resume, Call]"] c
  have 1: "pipeline_loads (sw (run_sched fresh [Call, Call, Settle True, Call, Resume, Resume, Resume, Call])) = 1"
    by simp
  note t = single_model_load [OF u, THEN conjunct2, THEN conjunct1, rule_format, OF p]
  from t have 2: "returned (run_sched fresh (replicate 3 Call @ [Settle True] @ replicate 3 Resume)) = 3"
    by (simp add: fresh_def)
  from t have 3: "translator (sw (run_sched fresh (replicate 3 Call @ [Settle True] @ replicate 3 Resume)))"
    by blast
  from t have 4: "raised (run_sched fresh (replicate 3 Call @ [Settle False] @ replicate 3 Resume)) = 3"
    by (simp add: fresh_def)
  from 1 2 3 4 show ?thesis by blast
qed

section \<open>Records and lines of a phrase file\<close>

lemma trim_trim: "trim (trim s) = trim s"
proof (cases "trim s = []")
  case True
  moreover have "trim [] = []" by (simp add: trim_def)
  ultimately show ?thesis by simp
next
  case False
  let ?u = "dropWhile isWhiteSpace s"
  let ?v = "dropWhile isWhiteSpace (rev ?u)"
  have v: "?v \<noteq> []" using False by (simp add: trim_def)
  then have u: "?u \<noteq> []" by (metis dropWhile.simps(1) rev.simps(1))
  have nv: "\<not> isWhiteSpace (hd ?v)" using v by (rule hd_dropWhile)
  have nu: "\<not> isWhiteSpace (hd ?u)" using u by (rule hd_dropWhile)
  have "rev ?u = takeWhile isWhiteSpace (rev ?u) @ ?v" by simp
  then have "?u = rev ?v @ rev (takeWhile isWhiteSpace (rev ?u))"
    by (metis rev_append rev_rev_ident)
  then have "hd ?u = hd (rev ?v)" using v by (metis hd_append2 rev_is_Nil_conv)
  then have h: "\<not> isWhiteSpace (hd (rev ?v))" using nu by simp
  have "dropWhile isWhiteSpace (rev ?v) = rev ?v"
    using h v by (cases "rev ?v") auto
  moreover have "dropWhile isWhiteSpace ?v = ?v"
    using nv v by (cases ?v) auto
  ultimately show ?thesis by (simp add: trim_def)
qed

lemma split_comma_no_comma: "COMMA \<notin> set s \<Longrightarrow> split_comma s = [s]"
  by (induction s) auto

lemma split_comma_append:
  "COMMA \<notin> set a \<Longrightarrow> split_comma (a @ COMMA # b) = a # split_comma b"
  by (induction a) auto

lemma strip_quotes_quoted: "strip_quotes (QUOTE # s @ [QUOTE]) = s"
  by (simp add: strip_quotes_def)

lemma csv_fields_record:
  assumes "COMMA \<notin> set (trim p)" "COMMA \<notin> set (trim r)"
  shows "csv_fields ([QUOTE] @ trim p @ [QUOTE, COMMA, QUOTE] @ trim r @ [QUOTE]) = [trim p, trim r]"
proof -
  have q: "QUOTE \<noteq> COMMA" by (simp add: QUOTE_def COMMA_def)
  have e: "[QUOTE] @ trim p @ [QUOTE, COMMA, QUOTE] @ trim r @ [QUOTE]
        = (QUOTE # trim p @ [QUOTE]) @ COMMA # (QUOTE # trim r @ [QUOTE])" by simp
  have c: "COMMA \<notin> set (QUOTE # trim p @ [QUOTE])" "COMMA \<notin> set (QUOTE # trim r @ [QUOTE])"
    using assms q by auto
  have "split_comma ([QUOTE] @ trim p @ [QUOTE, COMMA, QUOTE] @ trim r @ [QUOTE])
      = [QUOTE # trim p @ [QUOTE], QUOTE # trim r @ [QUOTE]]"
    unfolding e split_comma_append [OF c(1)] split_comma_no_comma [OF c(2)] ..
  then show ?thesis
    by (simp only: csv_fields_def list.map strip_quotes_quoted trim_trim)
qed

lemma split_lines_no_LF: "LF \<notin> set s \<Longrightarrow> split_lines s = [s]"
  by (induction s rule: split_lines.induct) auto

lemma split_lines_LF_end:
  "LF \<notin> set s \<Longrightarrow> s = [] \<or> last s \<noteq> CR \<Longrightarrow> split_lines (s @ [LF]) = [s, []]"
  by (induction s rule: split_lines.induct) (auto split: if_splits)

lemma split_lines_nonempty [simp]: "split_lines s \<noteq> []"
  by (induction s rule: split_lines.induct) (auto split: list.splits elim: push_front.elims)

lemma push_front_append: "ps \<noteq> [] \<Longrightarrow> push_front c ps @ qs = push_front c (ps @ qs)"
  by (cases ps) auto

lemma butlast_push_front:
  "length ps \<ge> 2 \<Longrightarrow> butlast (push_front c ps) = push_front c (butlast ps)"
  by (cases ps) (auto split: list.splits)

lemma LF_neq_CR [simp]: "LF \<noteq> CR" "CR \<noteq> LF"
  by (simp_all add: LF_def CR_def)

lemma length_push_front [simp]: "ps \<noteq> [] \<Longrightarrow> length (push_front c ps) = length ps"
  by (cases ps) auto

lemma split_lines_len2: "s \<noteq> [] \<Longrightarrow> last s = LF \<Longrightarrow> 2 \<le> length (split_lines s)"
proof (induction s rule: split_lines.induct)
  case 1
  then show ?case by simp
next
  case (2 c)
  then show ?case by simp
next
  case (3 c d cs)
  have ne: "split_lines cs \<noteq> []" by simp
  show ?case
  proof (cases "c = CR \<and> d = LF")
    case True
    then show ?thesis using ne by (cases "split_lines cs") auto
  next
    case False
    have l: "last (d # cs) = LF" using "3.prems" by simp
    show ?thesis
    proof (cases "c = LF")
      case True
      then show ?thesis using False "3.IH"(2) l by auto
    next
      case c: False
      then have "2 \<le> length (split_lines (d # cs))" using False "3.IH"(3) l by auto
      then show ?thesis using False c by auto
    qed
  qed
qed

lemma split_lines_append:
  "old = [] \<or> last old = LF \<Longrightarrow>
   split_lines (old @ rest) = butlast (split_lines old) @ split_lines rest"
proof (induction old rule: split_lines.induct)
  case 1
  then show ?case by simp
next
  case (2 c)
  then show ?case by (cases rest) (auto simp: LF_def CR_def)
next
  case (3 c d cs)
  have l: "last (d # cs) = LF" using "3.prems" by simp
  have ne: "split_lines cs \<noteq> []" by simp
  show ?case
  proof (cases "c = CR \<and> d = LF")
    case True
    have "cs = [] \<or> last cs = LF" using l by (cases cs) auto
    then have "split_lines (cs @ rest) = butlast (split_lines cs) @ split_lines rest"
      using True "3.IH"(1) by blast
    then show ?thesis using True ne by simp
  next
    case False
    show ?thesis
    proof (cases "c = LF")
      case True
      then have "split_lines ((d # cs) @ rest) = butlast (split_lines (d # cs)) @ split_lines rest"
        using False "3.IH"(2) l by blast
      then show ?thesis using True False by simp
    next
      case c: False
      have ih: "split_lines ((d # cs) @ rest) = butlast (split_lines (d # cs)) @ split_lines rest"
        using False c "3.IH"(3) l by blast
      have len: "2 \<le> length (split_lines (d # cs))" using l by (intro split_lines_len2) auto
      then have b: "butlast (split_lines (d # cs)) \<noteq> []"
        by (cases "split_lines (d # cs)") (auto split: if_splits)
      have "split_lines ((c # d # cs) @ rest) = push_front c (split_lines ((d # cs) @ rest))"
        using False c by auto
      also have "\<dots> = push_front c (butlast (split_lines (d # cs))) @ split_lines rest"
        using ih b by (simp add: push_front_append)
      also have "push_front c (butlast (split_lines (d # cs))) = butlast (push_front c (split_lines (d # cs)))"
        using len by (simp add: butlast_push_front)
      also have "push_front c (split_lines (d # cs)) = split_lines (c # d # cs)"
        using False c by auto
      finally show ?thesis .
    qed
  qed
qed

lemma utf8_roundtrip_plain:
  "\<not> isHigh c \<Longrightarrow> \<not> isLow c \<Longrightarrow> utf8_roundtrip (c # s) = c # utf8_roundtrip s"
  by (cases s) auto

lemma utf8_roundtrip_append:
  "b = [] \<or> \<not> isLow (hd b) \<Longrightarrow>
   utf8_roundtrip (a @ b) = utf8_roundtrip a @ utf8_roundtrip b"
proof (induction a rule: utf8_roundtrip.induct)
  case 1
  then show ?case by simp
next
  case (2 c)
  then show ?case by (cases b) auto
next
  case (3 c d cs)
  then show ?case by auto
qed

lemma utf8_roundtrip_record:
  assumes "utf8_roundtrip (trim p) = trim p" and "utf8_roundtrip (trim r) = trim r"
  shows "utf8_roundtrip (csv_record p r) = csv_record p r"
proof -
  have q: "\<not> isHigh QUOTE" "\<not> isLow QUOTE" "\<not> isHigh COMMA" "\<not> isLow COMMA"
      "\<not> isHigh LF" "\<not> isLow LF"
    by (simp_all add: isHigh_def isLow_def QUOTE_def COMMA_def LF_def)
  have e: "utf8_roundtrip [QUOTE, LF] = [QUOTE, LF]"
    using q by simp
  have "utf8_roundtrip (trim r @ [QUOTE, LF]) = trim r @ [QUOTE, LF]"
    using q e assms(2) by (simp add: utf8_roundtrip_append del: utf8_roundtrip.simps)
  then have t: "utf8_roundtrip (QUOTE # COMMA # QUOTE # trim r @ [QUOTE, LF])
                 = QUOTE # COMMA # QUOTE # trim r @ [QUOTE, LF]"
    using q by (simp add: utf8_roundtrip_plain del: utf8_roundtrip.simps)
  have "utf8_roundtrip (trim p @ QUOTE # COMMA # QUOTE # trim r @ [QUOTE, LF])
          = trim p @ QUOTE # COMMA # QUOTE # trim r @ [QUOTE, LF]"
    using q t assms(1) by (simp add: utf8_roundtrip_append del: utf8_roundtrip.simps)
  then show ?thesis
    using q by (simp add: csv_record_def utf8_roundtrip_plain del: utf8_roundtrip.simps)
qed

lemma utf8_roundtrip_samples:
  "utf8_roundtrip (csv_record (js ''good morning'') SUPRABHAT)
     = csv_record (js ''good morning'') SUPRABHAT"
  "utf8_roundtrip (csv_record (js ''hello'') NAMASTE) = csv_record (js ''hello'') NAMASTE"
  by (simp_all add: string_defs SUPRABHAT_def NAMASTE_def isHigh_def isLow_def)

lemma find_phrase_append:
  "find_phrase lc i (xs @ ys) =
     (case find_phrase lc i xs of Some t \<Rightarrow> Some t | None \<Rightarrow> find_phrase lc i ys)"
  by (induction xs) (auto split: list.splits)

lemma src_present_append:
  "src_present lc i (xs @ ys) \<longleftrightarrow> src_present lc i xs \<or> src_present lc i ys"
  by (induction xs) (auto split: list.splits)

lemma src_present_butlast: "\<not> src_present lc i xs \<Longrightarrow> \<not> src_present lc i (butlast xs)"
proof (cases "xs = []")
  case True
  then show ?thesis by simp
next
  case False
  then have "xs = butlast xs @ [last xs]" by simp
  then have "src_present lc i xs \<longleftrightarrow> src_present lc i (butlast xs) \<or> src_present lc i [last xs]"
    using src_present_append by metis
  then show "\<not> src_present lc i xs \<Longrightarrow> \<not> src_present lc i (butlast xs)" by blast
qed

lemma find_phrase_src_present: "\<not> src_present lc i xs \<Longrightarrow> find_phrase lc i xs = None"
  by (induction xs) (auto split: list.splits if_splits)

lemma csv_fields_Nil [simp]: "csv_fields [] = [[]]"
  by (simp add: csv_fields_def strip_quotes_def trim_def)

lemma record_lines:
  assumes "LF \<notin> set (trim p)" "LF \<notin> set (trim r)"
  shows "split_lines (csv_record p r) =
           [[QUOTE] @ trim p @ [QUOTE, COMMA, QUOTE] @ trim r @ [QUOTE], []]"
proof -
  let ?l = "[QUOTE] @ trim p @ [QUOTE, COMMA, QUOTE] @ trim r @ [QUOTE]"
  have "LF \<notin> set ?l" using assms by (auto simp: LF_def QUOTE_def COMMA_def)
  moreover have "last ?l \<noteq> CR" by (simp add: QUOTE_def CR_def)
  moreover have "csv_record p r = ?l @ [LF]" by (simp add: csv_record_def)
  ultimately show ?thesis using split_lines_LF_end [of ?l] by simp
qed

lemma lines_after_append:
  assumes "old = [] \<or> last old = LF" "LF \<notin> set (trim p)" "LF \<notin> set (trim r)"
  shows "split_lines (old @ csv_record p r) =
           butlast (split_lines old) @ [[QUOTE] @ trim p @ [QUOTE, COMMA, QUOTE] @ trim r @ [QUOTE], []]"
  using split_lines_append [OF assms(1)] record_lines [OF assms(2,3)] by simp

lemma find_after_append:
  assumes "old = [] \<or> last old = LF"
    "LF \<notin> set (trim p)" "LF \<notin> set (trim r)" "COMMA \<notin> set (trim p)" "COMMA \<notin> set (trim r)"
    "trim p \<noteq> []" "trim r \<noteq> []"
    "\<not> src_present lc (lc (trim p)) (split_lines old)"
  shows "find_phrase lc (lc (trim p)) (split_lines (old @ csv_record p r)) = Some (trim r)"
    and "src_present lc (lc (trim p)) (split_lines (old @ csv_record p r))"
proof -
  have n: "\<not> src_present lc (lc (trim p)) (butlast (split_lines old))"
    using assms(8) by (rule src_present_butlast)
  then have f: "find_phrase lc (lc (trim p)) (butlast (split_lines old)) = None"
    by (rule find_phrase_src_present)
  show "find_phrase lc (lc (trim p)) (split_lines (old @ csv_record p r)) = Some (trim r)"
    using f assms(6,7)
    by (simp add: lines_after_append [OF assms(1-3)] find_phrase_append
        csv_fields_record [OF assms(4,5), simplified])
  show "src_present lc (lc (trim p)) (split_lines (old @ csv_record p r))"
    using assms(6)
    by (simp add: lines_after_append [OF assms(1-3)] src_present_append
        csv_fields_record [OF assms(4,5), simplified])
qed

section \<open>What the lookups and the translation step read and leave\<close>

lemma lookupCulturalIdiom_fst:
  "fst (lookupCulturalIdiom env x s t w) =
     (case idiomFile s t of
        None \<Rightarrow> None
      | Some f \<Rightarrow>
          if read_fails env f then None
          else (case files w f of
                  None \<Rightarrow> None
                | Some csv \<Rightarrow>
                    find_phrase (toLowerCase env) (toLowerCase env (trim x)) (split_lines csv)))"
  by (simp add: lookupCulturalIdiom_def readFileSync_def split: option.splits)

lemma lookupCulturalIdiom_snd:
  "snd (lookupCulturalIdiom env x s t w) =
     (case idiomFile s t of None \<Rightarrow> w | Some f \<Rightarrow> emit (ReadFile f) w)"
  by (simp add: lookupCulturalIdiom_def readFileSync_def split: option.splits)

lemma getPhraseFromCSV_fst:
  "fst (getPhraseFromCSV env x s t w) =
     (if readdir_fails env \<or> read_fails env (pairFile s t) then None
      else (case files w (pairFile s t) of
              None \<Rightarrow> None
            | Some csv \<Rightarrow>
                find_phrase (toLowerCase env) (toLowerCase env (trim x)) (split_lines csv)))"
  by (auto simp: getPhraseFromCSV_def readdirSync_def readFileSync_def split: option.splits)

lemma getPhraseFromCSV_snd:
  "snd (getPhraseFromCSV env x s t w) =
     (if readdir_fails env \<or> files w (pairFile s t) = None then emit ReadDir w
      else emit (ReadFile (pairFile s t)) (emit ReadDir w))"
  by (auto simp: getPhraseFromCSV_def readdirSync_def readFileSync_def split: option.splits)

lemma lookup_frame [simp]:
  "files (snd (lookupCulturalIdiom env x s t w)) = files w"
  "translator (snd (lookupCulturalIdiom env x s t w)) = translator w"
  "translatorPromise (snd (lookupCulturalIdiom env x s t w)) = translatorPromise w"
  "files (snd (getPhraseFromCSV env x s t w)) = files w"
  "translator (snd (getPhraseFromCSV env x s t w)) = translator w"
  "translatorPromise (snd (getPhraseFromCSV env x s t w)) = translatorPromise w"
  by (simp_all add: lookupCulturalIdiom_snd getPhraseFromCSV_snd split: option.splits)

lemma loadModel_frame: "files (snd (loadModel env w)) = files w"
  by (simp add: loadModel_def loadModel_enter_def loadModel_resume_def settle_def)

lemma loadModel_cong:
  "translator w' = translator w \<Longrightarrow> translatorPromise w' = translatorPromise w \<Longrightarrow>
   fst (loadModel env w') = fst (loadModel env w)
   \<and> translator (snd (loadModel env w')) = translator (snd (loadModel env w))
   \<and> translatorPromise (snd (loadModel env w')) = translatorPromise (snd (loadModel env w))"
  by (simp add: loadModel_def loadModel_enter_def loadModel_resume_def settle_def)

lemma localTranslate_frame: "files (snd (localTranslate env x s t w)) = files w"
  using loadModel_frame [of env w]
  by (auto simp: localTranslate_def Let_def split: prod.splits sum.splits)

lemma localTranslate_cong:
  assumes "translator w' = translator w" "translatorPromise w' = translatorPromise w"
  shows "fst (localTranslate env x s t w') = fst (localTranslate env x s t w)
   \<and> translator (snd (localTranslate env x s t w')) = translator (snd (localTranslate env x s t w))
   \<and> translatorPromise (snd (localTranslate env x s t w')) = translatorPromise (snd (localTranslate env x s t w))"
  using loadModel_cong [OF assms, of env]
  by (auto simp: localTranslate_def Let_def split: prod.splits sum.splits)

lemma localPromise_frame: "files (snd (localPromise env x s t w)) = files w"
  using localTranslate_frame
  by (auto simp: localPromise_def split: prod.splits sum.splits) (metis snd_conv)+

lemma localPromise_cong:
  assumes "translator w' = translator w" "translatorPromise w' = translatorPromise w"
  shows "fst (localPromise env x s t w') = fst (localPromise env x s t w)"
proof (cases "s = ''en'' \<or> t = ''en''")
  case True
  then show ?thesis using localTranslate_cong [OF assms] by (simp add: localPromise_def)
next
  case False
  note a = localTranslate_cong [OF assms, of env x s "''en''"]
  obtain r1 w1 where 1: "localTranslate env x s ''en'' w = (r1, w1)" by fastforce
  obtain r1' w1' where 2: "localTranslate env x s ''en'' w' = (r1', w1')" by fastforce
  have e: "r1' = r1" "translator w1' = translator w1" "translatorPromise w1' = translatorPromise w1"
    using a 1 2 by simp_all
  show ?thesis
    using False 1 2 e localTranslate_cong [OF e(2,3)]
    by (cases r1) (simp_all add: localPromise_def)
qed

lemma localTranslate_Inr_translator:
  "localTranslate env x s t w = (Inr r, w1) \<Longrightarrow> translator w1"
  by (auto simp: localTranslate_def Let_def split: prod.splits sum.splits
      dest: loadModel_Inr_translator)

lemma localPromise_Inr_translator:
  "localPromise env x s t w = (Inr r, w1) \<Longrightarrow> translator w1"
  by (auto simp: localPromise_def split: if_splits prod.splits sum.splits
      dest: localTranslate_Inr_translator)

lemma localTranslate_loaded:
  "translator w \<Longrightarrow>
   localTranslate env x s t w =
     (case model env x (nllb_code s) (nllb_code t) of
        Inl e \<Rightarrow> Inl e | Inr r \<Rightarrow> Inr (translation_text_or r x),
      emit (Translate x (nllb_code s) (nllb_code t)) w)"
  by (simp add: localTranslate_ok [OF loadModel_loaded])

lemma localTranslate_again:
  assumes "localTranslate env x s t w = (Inr r, w1)" "translator w'"
  shows "fst (localTranslate env x s t w') = Inr r"
proof -
  have "model env x (nllb_code s) (nllb_code t) \<noteq> Inl e" for e
    using assms(1) by (auto simp: localTranslate_def Let_def split: prod.splits sum.splits)
  moreover have "model env x (nllb_code s) (nllb_code t) = Inr m \<Longrightarrow> r = translation_text_or m x" for m
    using assms(1) by (auto simp: localTranslate_def Let_def split: prod.splits sum.splits)
  ultimately show ?thesis
    by (cases "model env x (nllb_code s) (nllb_code t)")
       (auto simp: localTranslate_loaded [OF assms(2)])
qed

lemma localPromise_again:
  assumes "localPromise env x s t w = (Inr r, w1)" "translator w'"
  shows "fst (localPromise env x s t w') = Inr r"
proof (cases "s = ''en'' \<or> t = ''en''")
  case True
  then show ?thesis using assms localTranslate_again by (simp add: localPromise_def)
next
  case False
  obtain i w2 where 1: "localTranslate env x s ''en'' w = (Inr i, w2)"
      and 2: "localTranslate env i ''en'' t w2 = (Inr r, w1)"
    using assms(1) False by (auto simp: localPromise_def split: prod.splits sum.splits)
  obtain w2' where 3: "localTranslate env x s ''en'' w' = (Inr i, w2')"
    using localTranslate_again [OF 1 assms(2)] by (metis prod.collapse)
  have "translator w2'" using 3 by (rule localTranslate_Inr_translator)
  then have "fst (localTranslate env i ''en'' t w2') = Inr r"
    by (rule localTranslate_again [OF 2])
  then show ?thesis using False 3 by (simp add: localPromise_def)
qed

lemma translateText_unfold:
  "translateText env x (Str t) (Some s) w =
     (if x = [] \<or> trim x = [] \<or> s = t then (Inr \<lparr>translatedText = x\<rparr>, w)
      else case fst (lookupCulturalIdiom env x s t w) of
             Some idiom \<Rightarrow> (Inr \<lparr>translatedText = idiom\<rparr>, snd (lookupCulturalIdiom env x s t w))
           | None \<Rightarrow>
               (let w1 = snd (lookupCulturalIdiom env x s t w);
                    phrase = fst (getPhraseFromCSV env x s t w1);
                    w2 = snd (getPhraseFromCSV env x s t w1);
                    w3 = snd (localPromise env x s t w2)
                in case fst (localPromise env x s t w2) of
                     Inl e \<Rightarrow> (Inl e, w3)
                   | Inr localResult \<Rightarrow>
                       (Inr \<lparr>translatedText =
                          (case phrase of
                             Some p \<Rightarrow> p
                           | None \<Rightarrow>
                               if localResult \<noteq> [] \<and>
                                  toLowerCase env (trim localResult) \<noteq> toLowerCase env (trim x)
                               then localResult else x)\<rparr>, w3)))"
  by (simp add: translateText_def resolve_languages_def Let_def
      split: prod.splits option.splits sum.splits)

lemma src_present_empty_file [simp]: "\<not> src_present lc i (split_lines [])"
  by simp

lemma csv_update_frame:
  "g \<noteq> pairFile d t \<Longrightarrow> files (snd (csv_update env p d t r w)) g = files w g"
  by (auto simp: csv_update_def Let_def existsSync_def readFileSync_def appendFileSync_def
      writeFileSync_def split: option.splits bool.splits)

lemma csv_update_model [simp]:
  "translator (snd (csv_update env p d t r w)) = translator w"
  "translatorPromise (snd (csv_update env p d t r w)) = translatorPromise w"
  by (auto simp: csv_update_def Let_def existsSync_def readFileSync_def appendFileSync_def
      writeFileSync_def split: option.splits bool.splits)

lemma csv_update_ok:
  assumes "\<not> read_fails env (pairFile d t)" "\<not> append_fails env (pairFile d t)"
  shows "fst (csv_update env p d t r w) = Inr ()"
    and "files (snd (csv_update env p d t r w)) =
      (if r \<noteq> [] \<and> toLowerCase env (trim r) \<noteq> toLowerCase env (trim p) \<and>
          \<not> src_present (toLowerCase env) (toLowerCase env (trim p))
               (split_lines (case files w (pairFile d t) of None \<Rightarrow> [] | Some c \<Rightarrow> c))
       then (files w)(pairFile d t \<mapsto>
               (case files w (pairFile d t) of None \<Rightarrow> [] | Some c \<Rightarrow> c)
               @ utf8_roundtrip (csv_record p r))
       else files w)"
  using assms
  by (auto simp: csv_update_def Let_def existsSync_def readFileSync_def appendFileSync_def
      writeFileSync_def split: option.splits bool.splits)

lemma translateText_frame: "files (snd (translateText env x target source w)) = files w"
proof -
  have "files (snd (localPromise env x s t w')) = files w'" for s t w'
    by (rule localPromise_frame)
  then show ?thesis
    by (auto simp: translateText_def split: sum.splits prod.splits option.splits)
       (metis lookup_frame(1,4) snd_conv)+
qed

lemma translate_route_ok:
  assumes "preprocess_step env req = Inr (p, flags)"
    and "translateText env p (Str (req_targetLanguage req)) (Some (detect_step p)) w = (Inr tr, w1)"
    and "fst (csv_update env p (detect_step p) (req_targetLanguage req) (translatedText tr) w1) = Inr ()"
  shows "translate_route env req w =
     (\<lparr>status = 200, original = req_text req, preprocessed = p,
       translated = translatedText tr, res_targetLanguage = req_targetLanguage req,
       res_confidence = None, preprocessing = flags, res_detectedLanguage = detect_step p\<rparr>,
      snd (csv_update env p (detect_step p) (req_targetLanguage req) (translatedText tr) w1))"
  using assms by (auto simp: translate_route_def Let_def split: prod.splits sum.splits)

lemma translate_route_frame:
  assumes "preprocess_step env req = Inr (p, flags)"
    and "g \<noteq> pairFile (detect_step p) (req_targetLanguage req)"
  shows "files (snd (translate_route env req w)) g = files w g"
proof -
  let ?t = "translateText env p (Str (req_targetLanguage req)) (Some (detect_step p)) w"
  have f: "files (snd ?t) = files w" by (rule translateText_frame)
  show ?thesis
  proof (cases "fst ?t")
    case (Inl e)
    then show ?thesis using assms(1) f
      by (auto simp: translate_route_def Let_def split: prod.splits sum.splits)
  next
    case (Inr tr)
    have "files (snd (csv_update env p (detect_step p) (req_targetLanguage req) (translatedText tr) (snd ?t))) g
          = files (snd ?t) g"
      using assms(2) by (rule csv_update_frame)
    then show ?thesis using assms(1) f Inr
      by (auto simp: translate_route_def Let_def split: prod.splits sum.splits)
  qed
qed

lemma idiomFile_not_pairFile: "idiomFile s t = Some f \<Longrightarrow> f \<noteq> pairFile s t"
  by (auto simp: idiomFile_def pairFile_def split: if_splits)

lemma find_phrase_nonempty: "find_phrase lc i xs = Some tgt \<Longrightarrow> tgt \<noteq> []"
  by (induction xs) (auto split: list.splits if_splits)

lemmas route_defs = translate_route_def preprocess_step_def detect_step_def detectLanguage_def
  tamilRegex_def teluguRegex_def hindiRegex_def isTamil_def isTelugu_def isDevanagari_def
  translateText_def resolve_languages_def csv_update_def fallback_def Let_def
  hello_request_def morning_request_def

lemma lookup_trace:
  "\<exists>evs. trace (snd (lookupCulturalIdiom env x s t w)) = trace w @ evs"
  "\<exists>evs. trace (snd (getPhraseFromCSV env x s t w)) = trace w @ evs"
  by (simp_all add: lookupCulturalIdiom_snd getPhraseFromCSV_snd split: option.splits)

lemma csv_update_trace: "\<exists>evs. trace (snd (csv_update env p d t r w)) = trace w @ evs"
  by (auto simp: csv_update_def Let_def existsSync_def readFileSync_def appendFileSync_def
      writeFileSync_def split: option.splits bool.splits)

lemma localTranslate_trace: "\<exists>evs. trace (snd (localTranslate env x s t w)) = trace w @ evs"
  by (auto simp: localTranslate_def Let_def loadModel_def loadModel_enter_def loadModel_resume_def
      settle_def split: prod.splits sum.splits if_splits)

lemma localPromise_loaded_trace:
  assumes "translator w"
  shows "\<exists>evs. trace (snd (localPromise env x s t w)) =
           trace w @ Translate x (nllb_code s)
                       (if s = ''en'' \<or> t = ''en'' then nllb_code t else (Code ''eng_Latn'')) # evs"
proof (cases "s = ''en'' \<or> t = ''en''")
  case True
  then show ?thesis using assms by (simp add: localPromise_def localTranslate_loaded)
next
  case False
  let ?w1 = "emit (Translate x (nllb_code s) (Code ''eng_Latn'')) w"
  have 1: "snd (localTranslate env x s ''en'' w) = ?w1"
    using assms by (simp add: localTranslate_loaded nllb_code_en)
  obtain r1 where 2: "localTranslate env x s ''en'' w = (r1, ?w1)"
    using 1 by (metis prod.collapse)
  show ?thesis
  proof (cases r1)
    case (Inl e)
    then show ?thesis using False 2 by (simp add: localPromise_def)
  next
    case (Inr i)
    obtain evs where "trace (snd (localTranslate env i ''en'' t ?w1)) = trace ?w1 @ evs"
      using localTranslate_trace by blast
    then show ?thesis using False 2 Inr by (simp add: localPromise_def)
  qed
qed

section \<open>The options object\<close>

text \<open>
  C10. Called with an options object as second argument, \<open>translateText\<close> reads the
  target and the source language from the object, each replaced by \<open>en\<close> when absent
  (or empty) and used as given otherwise; the third positional argument is not used. The
  call then runs on these two languages: they decide the short circuit, and they are the
  pair the idiom lookup, the phrase lookup and the translation step are given. With the
  empty object both are \<open>en\<close>, the same-language test holds, and the text comes back
  unchanged, the world untouched.
\<close>

theorem options_object_defaults:
  "resolve_languages (Obj options) sl
     = Inr (or_en (opt_targetLanguage options), or_en (opt_sourceLanguage options))
   \<and> or_en None = ''en'' \<and> or_en (Some []) = ''en'' \<and> (l \<noteq> [] \<longrightarrow> or_en (Some l) = l)
   \<and> translateText env x (Obj options) sl w =
       (let t = or_en (opt_targetLanguage options); s = or_en (opt_sourceLanguage options)
        in if x = [] \<or> trim x = [] \<or> s = t then (Inr \<lparr>translatedText = x\<rparr>, w)
           else case fst (lookupCulturalIdiom env x s t w) of
                  Some idiom \<Rightarrow>
                    (Inr \<lparr>translatedText = idiom\<rparr>, snd (lookupCulturalIdiom env x s t w))
                | None \<Rightarrow>
                    (let w1 = snd (lookupCulturalIdiom env x s t w);
                         phrase = fst (getPhraseFromCSV env x s t w1);
                         w2 = snd (getPhraseFromCSV env x s t w1);
                         w3 = snd (localPromise env x s t w2)
                     in case fst (localPromise env x s t w2) of
                          Inl e \<Rightarrow> (Inl e, w3)
                        | Inr localResult \<Rightarrow>
                            (Inr \<lparr>translatedText =
                               (case phrase of
                                  Some p \<Rightarrow> p
                                | None \<Rightarrow>
                                    if localResult \<noteq> [] \<and>
                                       toLowerCase env (trim localResult)
                                         \<noteq> toLowerCase env (trim x)
                                    then localResult else x)\<rparr>, w3)))
   \<and> translateText env x (Obj options) sl w =
       translateText env x (Str (or_en (opt_targetLanguage options)))
         (Some (or_en (opt_sourceLanguage options))) w
   \<and> translateText env x
        (Obj \<lparr>opt_targetLanguage = None, opt_sourceLanguage = None, opt_culturalAdaptation = False\<rparr>)
        sl w = (Inr \<lparr>translatedText = x\<rparr>, w)"
proof -
  have same: "translateText env x (Obj options) sl w =
       translateText env x (Str (or_en (opt_targetLanguage options)))
         (Some (or_en (opt_sourceLanguage options))) w"
    by (simp add: translateText_def resolve_languages_def)
  have 1: "resolve_languages (Obj options) sl
     = Inr (or_en (opt_targetLanguage options), or_en (opt_sourceLanguage options))"
    by (simp add: resolve_languages_def)
  have 2: "or_en None = ''en''" "or_en (Some []) = ''en''" "l \<noteq> [] \<longrightarrow> or_en (Some l) = l"
    by (simp_all add: or_en_def)
  have 3: "translateText env x
        (Obj \<lparr>opt_targetLanguage = None, opt_sourceLanguage = None, opt_culturalAdaptation = False\<rparr>)
        sl w = (Inr \<lparr>translatedText = x\<rparr>, w)"
    by (simp add: translateText_def resolve_languages_def or_en_def)
  show ?thesis
    unfolding same translateText_unfold Let_def using 1 2 3 same
    by (simp add: translateText_unfold Let_def)
qed

theorem options_object_defaults_witness:
  "or_en (Some ''hi'') = ''hi''
   \<and> translateText host (js ''good morning'')
        (Obj \<lparr>opt_targetLanguage = Some ''hi'', opt_sourceLanguage = None,
              opt_culturalAdaptation = False\<rparr>)
        (Some ''ta'') idioms
       = (Inr \<lparr>translatedText = SUPRABHAT\<rparr>, emit (ReadFile ''en-hi-idioms.csv'') idioms)"
proof -
  let ?o = "\<lparr>opt_targetLanguage = Some ''hi'', opt_sourceLanguage = None,
              opt_culturalAdaptation = False\<rparr>"
  note t = options_object_defaults [of ?o "Some ''ta''" "''hi''" host "js ''good morning''" idioms]
  have n: "''hi'' \<noteq> []" by simp
  from t [THEN conjunct2, THEN conjunct2, THEN conjunct2, THEN conjunct1, rule_format, OF n]
  have 1: "or_en (Some ''hi'') = ''hi''" .
  have 2: "or_en None = ''en''" using t by blast
  have i: "lookupCulturalIdiom host (js ''good morning'') ''en'' ''hi'' idioms
             = (Some SUPRABHAT, emit (ReadFile ''en-hi-idioms.csv'') idioms)"
    by (simp add: lookup_defs io_defs sample_defs string_defs idioms_def SUPRABHAT_def)
  have ne: "js ''good morning'' \<noteq> [] \<and> trim (js ''good morning'') \<noteq> []"
    by (simp add: string_defs)
  from t [THEN conjunct2, THEN conjunct2, THEN conjunct2, THEN conjunct2, THEN conjunct1]
  have 3: "translateText host (js ''good morning'') (Obj ?o) (Some ''ta'') idioms
       = (Inr \<lparr>translatedText = SUPRABHAT\<rparr>, emit (ReadFile ''en-hi-idioms.csv'') idioms)"
    using ne by (simp add: 1 2 i)
  from 1 3 show ?thesis by blast
qed

section \<open>Failure of the local engine\<close>

text \<open>
  C2, as the code has it. For language codes given as strings, those of the closed set
  among them, \<open>translateText\<close> raises exactly when the request passes the short circuit,
  the idiom table has no hit, and the translation step raises (the model does not load,
  or the translator fails); it then raises that very error. So an idiom hit is answered
  whatever the engine would do, the engine not being called; a phrase-cache hit is not:
  the lookup and the translation step are awaited together, and the failure of the step
  fails the call. The text is echoed only when the translation step returned.
\<close>

theorem engine_failure_propagates:
  "fst (translateText env x (Str t) (Some s) w) = Inl e \<longleftrightarrow>
     \<not> (x = [] \<or> trim x = [] \<or> s = t)
     \<and> fst (lookupCulturalIdiom env x s t w) = None
     \<and> fst (localPromise env x s t w) = Inl e"
proof -
  let ?w2 = "snd (getPhraseFromCSV env x s t (snd (lookupCulturalIdiom env x s t w)))"
  have "fst (localPromise env x s t ?w2) = fst (localPromise env x s t w)"
    by (rule localPromise_cong) simp_all
  then show ?thesis
    by (auto simp: translateText_unfold Let_def split: option.splits sum.splits)
qed

theorem engine_failure_propagates_witness:
  "fst (translateText engine_down (js ''hello'') (Str ''hi'') (Some ''en'') blank) = Inl TranslatorError"
proof -
  have 1: "\<not> (js ''hello'' = [] \<or> trim (js ''hello'') = [] \<or> ''en'' = ''hi'')"
    by (simp add: string_defs)
  have 2: "fst (lookupCulturalIdiom engine_down (js ''hello'') ''en'' ''hi'' blank) = None"
    by (simp add: lookup_defs io_defs sample_defs engine_down_def)
  have 3: "fst (localPromise engine_down (js ''hello'') ''en'' ''hi'' blank) = Inl TranslatorError"
    by (simp add: engine_defs io_defs sample_defs engine_down_def)
  from engine_failure_propagates [THEN iffD2, OF conjI [OF 1 conjI [OF 2 3]]]
  show ?thesis .
qed

text \<open>
  The claim C2 as stated fails: with \<open>hello\<close> in the phrase cache of \<open>en-hi\<close> and a
  translator that raises, the lookup finds the phrase and the call raises nevertheless.
\<close>

theorem engine_failure_counterexample:
  "fst (getPhraseFromCSV engine_down (js ''hello'') ''en'' ''hi'' cached) = Some (js ''namaste'')
   \<and> fst (translateText engine_down (js ''hello'') (Str ''hi'') (Some ''en'') cached)
       = Inl TranslatorError"
  by (simp add: translateText_def resolve_languages_def lookup_defs io_defs engine_defs
      cached_def sample_defs engine_down_def string_defs)

section \<open>Failure of the cache update\<close>

lemma csv_update_never_raises:
  "\<not> write_fails env (pairFile d t) \<Longrightarrow> fst (csv_update env p d t r w) = Inr ()"
  by (auto simp: csv_update_def Let_def existsSync_def readFileSync_def appendFileSync_def
      writeFileSync_def split: option.splits bool.splits)

lemma csv_update_files:
  assumes "\<not> write_fails env (pairFile d t)"
  shows "files (snd (csv_update env p d t r w)) =
     (let f = pairFile d t; line = utf8_roundtrip (csv_record p r)
      in if r = [] \<or> toLowerCase env (trim r) = toLowerCase env (trim p) then files w
         else case files w f of
                None \<Rightarrow> (files w)(f \<mapsto> line)
              | Some old \<Rightarrow>
                  if read_fails env f then (files w)(f \<mapsto> line)
                  else if src_present (toLowerCase env) (toLowerCase env (trim p))
                            (split_lines old)
                  then files w
                  else if append_fails env f then (files w)(f \<mapsto> line)
                  else (files w)(f \<mapsto> old @ line))"
  using assms
  by (auto simp: csv_update_def Let_def existsSync_def readFileSync_def appendFileSync_def
      writeFileSync_def split: option.splits bool.splits)

text \<open>
  C4, as the code has it. Whatever fails in the \<open>try\<close> block of the cache update (the
  read of the file, the append) is caught, and the \<open>catch\<close> block writes the file anew
  with the one record. When that write does not fail, the request is answered with status
  200 and the translation that was computed, and the files are left as follows. Nothing is
  written when the translation is empty or equals the text up to case and outer blanks,
  or when the phrase file is read and has a record of the text. Otherwise the phrase file
  of the pair is the only file changed: it holds the one record alone when it did not
  exist, when its read fails or when the append fails (what it held before is lost), and
  its former content followed by the record when all goes well. The record is stored as
  UTF-8 gives it back.
\<close>

theorem cache_write_failure:
  assumes "preprocess_step env req = Inr (p, flags)"
    and "translateText env p (Str (req_targetLanguage req)) (Some (detect_step p)) w = (Inr tr, w1)"
    and "\<not> write_fails env (pairFile (detect_step p) (req_targetLanguage req))"
  shows "status (fst (translate_route env req w)) = 200
     \<and> translated (fst (translate_route env req w)) = translatedText tr
     \<and> files (snd (translate_route env req w)) =
        (let f = pairFile (detect_step p) (req_targetLanguage req);
             r = translatedText tr;
             line = utf8_roundtrip (csv_record p r)
         in if r = [] \<or> toLowerCase env (trim r) = toLowerCase env (trim p) then files w
            else case files w f of
                   None \<Rightarrow> (files w)(f \<mapsto> line)
                 | Some old \<Rightarrow>
                     if read_fails env f then (files w)(f \<mapsto> line)
                     else if src_present (toLowerCase env) (toLowerCase env (trim p))
                               (split_lines old)
                     then files w
                     else if append_fails env f then (files w)(f \<mapsto> line)
                     else (files w)(f \<mapsto> old @ line))"
proof -
  let ?d = "detect_step p" and ?t = "req_targetLanguage req"
  have ok: "fst (csv_update env p ?d ?t (translatedText tr) w1) = Inr ()"
    using assms(3) by (rule csv_update_never_raises)
  have route: "translate_route env req w =
     (\<lparr>status = 200, original = req_text req, preprocessed = p,
       translated = translatedText tr, res_targetLanguage = ?t,
       res_confidence = None, preprocessing = flags, res_detectedLanguage = ?d\<rparr>,
      snd (csv_update env p ?d ?t (translatedText tr) w1))"
    using assms(1,2) ok by (rule translate_route_ok)
  have frame: "files w1 = files w"
    using translateText_frame [of env p "Str ?t" "Some ?d" w] assms(2) by simp
  from csv_update_files [OF assms(3), of p "translatedText tr" w1, unfolded frame Let_def]
  show ?thesis unfolding route Let_def by simp
qed

theorem cache_write_failure_witness:
  "append_fails append_denied ''en-hi.csv''
   \<and> files unterminated = [''en-hi.csv'' \<mapsto> js ''x,y'']
   \<and> status (fst (translate_route append_denied hello_request unterminated)) = 200
   \<and> translated (fst (translate_route append_denied hello_request unterminated)) = NAMASTE
   \<and> files (snd (translate_route append_denied hello_request unterminated))
       = [''en-hi.csv'' \<mapsto> csv_record (js ''hello'') NAMASTE]"
proof -
  have 1: "preprocess_step append_denied hello_request = Inr (js ''hello'', no_flags)"
    by (simp add: route_defs sample_defs append_denied_def)
  have d: "detect_step (js ''hello'') = ''en''" "req_targetLanguage hello_request = ''hi''"
    by (simp_all add: route_defs js_def)
  have "fst (translateText append_denied (js ''hello'') (Str ''hi'') (Some ''en'') unterminated)
          = Inr \<lparr>translatedText = NAMASTE\<rparr>"
    by (simp add: route_defs lookup_defs io_defs engine_defs sample_defs string_defs
        append_denied_def unterminated_def)
  then obtain w1 where 2:
    "translateText append_denied (js ''hello'') (Str (req_targetLanguage hello_request))
       (Some (detect_step (js ''hello''))) unterminated = (Inr \<lparr>translatedText = NAMASTE\<rparr>, w1)"
    unfolding d by (metis prod.collapse)
  have 3: "\<not> write_fails append_denied
              (pairFile (detect_step (js ''hello'')) (req_targetLanguage hello_request))"
    by (simp add: sample_defs append_denied_def)
  have 4: "append_fails append_denied ''en-hi.csv''"
    by (simp add: sample_defs append_denied_def)
  have 5: "files unterminated = [''en-hi.csv'' \<mapsto> js ''x,y'']"
    by (simp add: unterminated_def blank_def)
  have 6: "\<not> src_present lower_ascii (lower_ascii (trim (js ''hello''))) (split_lines (js ''x,y''))"
    by (simp add: string_defs)
  have 7: "lower_ascii (trim NAMASTE) \<noteq> lower_ascii (trim (js ''hello''))"
    by (simp add: string_defs NAMASTE_def)
  have 8: "toLowerCase append_denied = lower_ascii" "\<not> read_fails append_denied ''en-hi.csv''"
    by (simp_all add: sample_defs append_denied_def)
  have 9: "NAMASTE \<noteq> []" by (simp add: NAMASTE_def)
  from cache_write_failure [OF 1 2 3]
  have "status (fst (translate_route append_denied hello_request unterminated)) = 200
     \<and> translated (fst (translate_route append_denied hello_request unterminated)) = NAMASTE
     \<and> files (snd (translate_route append_denied hello_request unterminated))
         = [''en-hi.csv'' \<mapsto> csv_record (js ''hello'') NAMASTE]"
    by (simp add: d pairFile_def 4 5 6 7 8 9 utf8_roundtrip_samples)
  with 4 5 show ?thesis by blast
qed

text \<open>
  The claim C4 as stated fails: when the append and the write of the \<open>catch\<close> block both
  fail, the request is answered with status 500 and the request's own text, though
  \<open>translateText\<close> had returned the translation.
\<close>

theorem cache_write_failure_counterexample:
  "fst (translateText disk_full (js ''hello'') (Str ''hi'') (Some ''en'') blank)
     = Inr \<lparr>translatedText = NAMASTE\<rparr>
   \<and> status (fst (translate_route disk_full hello_request blank)) = 500
   \<and> translated (fst (translate_route disk_full hello_request blank)) = js ''hello''"
  by (simp add: route_defs lookup_defs io_defs engine_defs sample_defs string_defs disk_full_def)

section \<open>Idiom hits\<close>

lemma idiom_hit:
  assumes "trim y \<noteq> []" and "idiomFile src tgt = Some g" and "\<not> read_fails env g"
    and "files w g = Some c"
    and "find_phrase (toLowerCase env) (toLowerCase env (trim y)) (split_lines c) = Some ph"
  shows "translateText env y (Str tgt) (Some src) w
           = (Inr \<lparr>translatedText = ph\<rparr>, emit (ReadFile g) w)"
proof -
  have ne: "y \<noteq> []" using assms(1) by (auto simp: trim_def)
  have d: "src \<noteq> tgt" using assms(2) by (auto simp: idiomFile_def split: if_splits)
  have hit: "fst (lookupCulturalIdiom env y src tgt w) = Some ph"
    using assms(2-5) by (simp add: lookupCulturalIdiom_fst)
  have w1: "snd (lookupCulturalIdiom env y src tgt w) = emit (ReadFile g) w"
    using assms(2) by (simp add: lookupCulturalIdiom_snd)
  show ?thesis using ne d assms(1) hit w1 by (simp add: translateText_unfold)
qed

text \<open>
  C1, as the code has it. When the text of a call (not blank) has an entry in the idiom
  file of its directed pair, \<open>translateText\<close> returns the entry's target phrase,
  whatever the phrase cache holds and whatever the engine would answer: it reads the
  idiom file and does nothing else, so it changes no file. The route, where the source is
  the detected language, then runs its cache update on this result as on any other. It
  never changes a file other than the phrase file of the pair; and when reading and appending that file do not fail,
  the request is answered with the idiom's phrase and the record of text and phrase, as
  UTF-8 gives it back, is appended to the phrase file, unless the phrase equals the text
  (trimmed, lower-cased) or the file already has a record with that source.
\<close>

theorem idiom_precedence:
  assumes "preprocess_step env req = Inr (x, flags)"
    and "s = detect_step x" and "t = req_targetLanguage req"
    and "trim x \<noteq> []"
    and "idiomFile s t = Some f" and "\<not> read_fails env f" and "files w f = Some csv"
    and "find_phrase (toLowerCase env) (toLowerCase env (trim x)) (split_lines csv) = Some idiom"
    and "old = (case files w (pairFile s t) of None \<Rightarrow> [] | Some c \<Rightarrow> c)"
  shows "(trim y \<noteq> [] \<and> idiomFile src tgt = Some g \<and> \<not> read_fails env g \<and>
          files w0 g = Some c \<and>
          find_phrase (toLowerCase env) (toLowerCase env (trim y)) (split_lines c) = Some ph
          \<longrightarrow> translateText env y (Str tgt) (Some src) w0
                = (Inr \<lparr>translatedText = ph\<rparr>, emit (ReadFile g) w0))
    \<and> (\<forall>g. g \<noteq> pairFile s t \<longrightarrow> files (snd (translate_route env req w)) g = files w g)
    \<and> (\<not> read_fails env (pairFile s t) \<and> \<not> append_fails env (pairFile s t) \<longrightarrow>
         status (fst (translate_route env req w)) = 200 \<and>
         translated (fst (translate_route env req w)) = idiom \<and>
         files (snd (translate_route env req w)) (pairFile s t) =
           (if toLowerCase env (trim idiom) \<noteq> toLowerCase env (trim x) \<and>
               \<not> src_present (toLowerCase env) (toLowerCase env (trim x)) (split_lines old)
            then Some (old @ utf8_roundtrip (csv_record x idiom))
            else files w (pairFile s t)))"
proof (intro conjI allI impI)
  show "translateText env y (Str tgt) (Some src) w0
          = (Inr \<lparr>translatedText = ph\<rparr>, emit (ReadFile g) w0)"
    if "trim y \<noteq> [] \<and> idiomFile src tgt = Some g \<and> \<not> read_fails env g \<and>
          files w0 g = Some c \<and>
          find_phrase (toLowerCase env) (toLowerCase env (trim y)) (split_lines c) = Some ph"
    using idiom_hit [of y src tgt g env w0 c ph] that by blast
  have tt: "translateText env x (Str t) (Some s) w
           = (Inr \<lparr>translatedText = idiom\<rparr>, emit (ReadFile f) w)"
    using assms(4-8) by (rule idiom_hit)
  show "files (snd (translate_route env req w)) g = files w g" if "g \<noteq> pairFile s t" for g
    using that assms(2,3) translate_route_frame [OF assms(1)] by simp
  assume nf: "\<not> read_fails env (pairFile s t) \<and> \<not> append_fails env (pairFile s t)"
  have i: "idiom \<noteq> []" using assms(8) by (rule find_phrase_nonempty)
  note u = csv_update_ok [of env s t x idiom "emit (ReadFile f) w", OF conjunct1 [OF nf] conjunct2 [OF nf]]
  have r: "translate_route env req w =
     (\<lparr>status = 200, original = req_text req, preprocessed = x,
       translated = idiom, res_targetLanguage = req_targetLanguage req,
       res_confidence = None, preprocessing = flags, res_detectedLanguage = detect_step x\<rparr>,
      snd (csv_update env x s t idiom (emit (ReadFile f) w)))"
    using translate_route_ok [OF assms(1), where tr = "\<lparr>translatedText = idiom\<rparr>" and w = w
        and ?w1.0 = "emit (ReadFile f) w"]
      tt u(1) assms(2,3) by simp
  show "status (fst (translate_route env req w)) = 200" by (simp add: r)
  show "translated (fst (translate_route env req w)) = idiom" by (simp add: r)
  show "files (snd (translate_route env req w)) (pairFile s t) =
           (if toLowerCase env (trim idiom) \<noteq> toLowerCase env (trim x) \<and>
               \<not> src_present (toLowerCase env) (toLowerCase env (trim x)) (split_lines old)
            then Some (old @ utf8_roundtrip (csv_record x idiom))
            else files w (pairFile s t))"
    using i by (simp add: r u(2) assms(9))
qed

theorem idiom_precedence_witness:
  "translateText host (js ''good morning'') (Str ''hi'') (Some ''en'') idioms
     = (Inr \<lparr>translatedText = SUPRABHAT\<rparr>, emit (ReadFile ''en-hi-idioms.csv'') idioms)
   \<and> files (snd (translate_route host morning_request idioms)) ''en-hi-idioms.csv''
       = files idioms ''en-hi-idioms.csv''
   \<and> translated (fst (translate_route host morning_request idioms)) = SUPRABHAT
   \<and> files (snd (translate_route host morning_request idioms)) ''en-hi.csv''
       = Some (csv_record (js ''good morning'') SUPRABHAT)"
proof -
  let ?x = "js ''good morning''"
  let ?csv = "csv_record ?x SUPRABHAT"
  have 1: "preprocess_step host morning_request = Inr (?x, no_flags)"
    by (simp add: route_defs sample_defs)
  have 2: "''en'' = detect_step ?x"
    by (simp add: route_defs js_def)
  have 3: "''hi'' = req_targetLanguage morning_request"
    by (simp add: route_defs)
  have 4: "trim ?x \<noteq> []" by (simp add: string_defs)
  have 6: "idiomFile ''en'' ''hi'' = Some ''en-hi-idioms.csv''" by (simp add: idiomFile_def)
  have 7: "\<not> read_fails host ''en-hi-idioms.csv''" by (simp add: sample_defs)
  have 8: "files idioms ''en-hi-idioms.csv'' = Some ?csv" by (simp add: idioms_def sample_defs)
  have 9: "find_phrase (toLowerCase host) (toLowerCase host (trim ?x)) (split_lines ?csv)
             = Some SUPRABHAT"
    by (simp add: sample_defs string_defs SUPRABHAT_def)
  have 10: "[] = (case files idioms (pairFile ''en'' ''hi'') of None \<Rightarrow> [] | Some c \<Rightarrow> c)"
    by (simp add: idioms_def sample_defs pairFile_def)
  have nf: "\<not> read_fails host (pairFile ''en'' ''hi'') \<and> \<not> append_fails host (pairFile ''en'' ''hi'')"
    by (simp add: sample_defs)
  have ne: "''en-hi-idioms.csv'' \<noteq> pairFile ''en'' ''hi''" by (simp add: pairFile_def)
  have c: "toLowerCase host (trim SUPRABHAT) \<noteq> toLowerCase host (trim ?x) \<and>
           \<not> src_present (toLowerCase host) (toLowerCase host (trim ?x)) (split_lines [])"
    by (simp add: sample_defs string_defs SUPRABHAT_def)
  note t = idiom_precedence [OF 1 2 3 4 6 7 8 9 10]
  from t [THEN conjunct1, rule_format, OF conjI [OF 4 conjI [OF 6 conjI [OF 7 conjI [OF 8 9]]]]]
  have a: "translateText host ?x (Str ''hi'') (Some ''en'') idioms
     = (Inr \<lparr>translatedText = SUPRABHAT\<rparr>, emit (ReadFile ''en-hi-idioms.csv'') idioms)" .
  from t [THEN conjunct2, THEN conjunct1, rule_format, OF ne]
  have b: "files (snd (translate_route host morning_request idioms)) ''en-hi-idioms.csv''
       = files idioms ''en-hi-idioms.csv''" .
  from t [THEN conjunct2, THEN conjunct2, rule_format, OF nf] c
  have d: "translated (fst (translate_route host morning_request idioms)) = SUPRABHAT
     \<and> files (snd (translate_route host morning_request idioms)) ''en-hi.csv''
       = Some (csv_record ?x SUPRABHAT)"
    by (simp add: pairFile_def utf8_roundtrip_samples)
  from a b d show ?thesis by blast
qed

text \<open>
  The claim C1 as stated fails: \<open>good morning\<close> is in the idiom file of \<open>en-hi\<close>, the
  phrase file \<open>en-hi.csv\<close> does not exist, and after the request it exists and holds
  the idiom's record.
\<close>

theorem idiom_precedence_counterexample:
  "translated (fst (translate_route host morning_request idioms)) = SUPRABHAT
   \<and> files idioms ''en-hi.csv'' = None
   \<and> files (snd (translate_route host morning_request idioms)) ''en-hi.csv''
       = Some (csv_record (js ''good morning'') SUPRABHAT)"
  by (simp add: route_defs lookup_defs io_defs engine_defs sample_defs string_defs idioms_def
      SUPRABHAT_def)

section \<open>Population of the phrase cache\<close>

lemma hello_first:
  "translate_route host hello_request blank =
     (\<lparr>status = 200, original = js ''hello'', preprocessed = js ''hello'', translated = NAMASTE,
       res_targetLanguage = ''hi'', res_confidence = None, preprocessing = no_flags,
       res_detectedLanguage = ''en''\<rparr>, after_hello)"
  by (simp add: route_defs lookup_defs io_defs engine_defs sample_defs string_defs after_hello_def)

lemma hello_second:
  "translate_route host hello_request after_hello =
     (\<lparr>status = 200, original = js ''hello'', preprocessed = js ''hello'', translated = NAMASTE,
       res_targetLanguage = ''hi'', res_confidence = None, preprocessing = no_flags,
       res_detectedLanguage = ''en''\<rparr>,
      after_hello\<lparr>trace := trace after_hello @
         [ReadFile ''en-hi-idioms.csv'', ReadDir, ReadFile ''en-hi.csv'',
          Translate (js ''hello'') (Code ''eng_Latn'') (Code ''hin_Deva''),
          Exists ''en-hi.csv'', ReadFile ''en-hi.csv'']\<rparr>)"
  by (simp add: route_defs lookup_defs io_defs engine_defs sample_defs string_defs after_hello_def)

lemma lone_first:
  "translate_route fixed_host lone_request blank =
     (\<lparr>status = 200, original = 0xD800 # js ''abc'', preprocessed = 0xD800 # js ''abc'',
       translated = NAMASTE, res_targetLanguage = ''hi'', res_confidence = None,
       preprocessing = no_flags, res_detectedLanguage = ''en''\<rparr>,
      \<lparr>files = [''en-hi.csv'' \<mapsto> csv_record (0xFFFD # js ''abc'') NAMASTE],
       translator = True, translatorPromise = Some Fulfilled,
       trace = [ReadFile ''en-hi-idioms.csv'', ReadDir, PipelineLoad,
                Translate (0xD800 # js ''abc'') (Code ''eng_Latn'') (Code ''hin_Deva''),
                Exists ''en-hi.csv'',
                AppendFile ''en-hi.csv'' (csv_record (0xD800 # js ''abc'') NAMASTE)]\<rparr>)"
  by (simp add: route_defs lookup_defs io_defs engine_defs sample_defs string_defs
      fixed_host_def lone_request_def fixed_model_def)

lemma lone_second:
  "files (snd (translate_route fixed_host lone_request
     \<lparr>files = [''en-hi.csv'' \<mapsto> csv_record (0xFFFD # js ''abc'') NAMASTE],
       translator = True, translatorPromise = Some Fulfilled,
       trace = [ReadFile ''en-hi-idioms.csv'', ReadDir, PipelineLoad,
                Translate (0xD800 # js ''abc'') (Code ''eng_Latn'') (Code ''hin_Deva''),
                Exists ''en-hi.csv'',
                AppendFile ''en-hi.csv'' (csv_record (0xD800 # js ''abc'') NAMASTE)]\<rparr>))
     ''en-hi.csv''
   = Some (csv_record (0xFFFD # js ''abc'') NAMASTE @ csv_record (0xFFFD # js ''abc'') NAMASTE)"
  by (simp add: route_defs lookup_defs io_defs engine_defs sample_defs string_defs
      fixed_host_def lone_request_def fixed_model_def)

text \<open>
  C3, as the code has it. Take a request past the short circuit whose text has no idiom
  hit, whose pair's phrase file (if any) has no record with that source, and for which
  the translation step returns a text differing from the input (trimmed, lower-cased);
  let reading and appending the phrase file not fail. Then the request is answered with
  that text, and exactly one record is appended to the phrase file of the pair, which is
  created with that record when it did not exist; no other file changes. The record is
  stored as UTF-8 gives it back, a surrogate without its partner replaced by U+FFFD. If
  moreover the file was empty, absent or ended with a newline, the trimmed text and the
  trimmed result hold neither a comma nor a newline and come back from UTF-8 unchanged
  (no surrogate without its partner), the trimmed result is not empty, and the directory
  can be listed, then the same request again is answered with the cached phrase (the
  trimmed result) and appends nothing; the translator is called in it all the same.
\<close>

theorem cache_population:
  assumes "preprocess_step env req = Inr (p, flags)"
    and "d = detect_step p" and "t = req_targetLanguage req" and "f = pairFile d t"
    and "old = (case files w f of None \<Rightarrow> [] | Some c \<Rightarrow> c)"
    and "trim p \<noteq> []" and "d \<noteq> t"
    and "fst (lookupCulturalIdiom env p d t w) = None"
    and "\<not> src_present (toLowerCase env) (toLowerCase env (trim p)) (split_lines old)"
    and "fst (localPromise env p d t w) = Inr r"
    and "toLowerCase env (trim r) \<noteq> toLowerCase env (trim p)"
    and "\<not> read_fails env f" and "\<not> append_fails env f"
  shows "status (fst (translate_route env req w)) = 200
    \<and> translated (fst (translate_route env req w)) = r
    \<and> files (snd (translate_route env req w))
        = (files w)(f \<mapsto> old @ utf8_roundtrip (csv_record p r))
    \<and> (\<not> readdir_fails env \<and> (old = [] \<or> last old = LF) \<and>
        COMMA \<notin> set (trim p) \<and> LF \<notin> set (trim p) \<and>
        COMMA \<notin> set (trim r) \<and> LF \<notin> set (trim r) \<and> trim r \<noteq> [] \<and>
        utf8_roundtrip (trim p) = trim p \<and> utf8_roundtrip (trim r) = trim r \<longrightarrow>
          status (fst (translate_route env req (snd (translate_route env req w)))) = 200 \<and>
          translated (fst (translate_route env req (snd (translate_route env req w)))) = trim r \<and>
          files (snd (translate_route env req (snd (translate_route env req w))))
            = files (snd (translate_route env req w)) \<and>
          (\<exists>pre post.
             trace (snd (translate_route env req (snd (translate_route env req w)))) =
               trace (snd (translate_route env req w)) @ pre @
               Translate p (nllb_code d)
                 (if d = ''en'' \<or> t = ''en'' then nllb_code t else (Code ''eng_Latn'')) # post))"
proof -
  let ?lc = "toLowerCase env"
  have ne: "p \<noteq> []" using assms(6) by (auto simp: trim_def)
  have short: "\<not> (p = [] \<or> trim p = [] \<or> d = t)" using ne assms(6,7) by simp
  \<comment> \<open>the first request\<close>
  let ?w1 = "snd (lookupCulturalIdiom env p d t w)"
  let ?w2 = "snd (getPhraseFromCSV env p d t ?w1)"
  let ?w3 = "snd (localPromise env p d t ?w2)"
  have miss: "fst (getPhraseFromCSV env p d t ?w1) = None"
    using assms(9) find_phrase_src_present [OF assms(9)]
    by (simp add: getPhraseFromCSV_fst assms(4,5) split: option.splits)
  have eng: "fst (localPromise env p d t ?w2) = Inr r"
    using assms(10) localPromise_cong [of ?w2 w env p d t] by simp
  have rne: "r \<noteq> []"
    using eng ne localPromise_nonempty [of env p d t ?w2 r ?w3] by (metis prod.collapse)
  have tt: "translateText env p (Str t) (Some d) w = (Inr \<lparr>translatedText = r\<rparr>, ?w3)"
    using short assms(8) miss eng rne assms(11) by (simp add: translateText_unfold Let_def)
  have f3: "files ?w3 = files w" by (simp add: localPromise_frame)
  have t3: "translator ?w3"
    using eng localPromise_Inr_translator [of env p d t ?w2 r ?w3] by (metis prod.collapse)
  note u = csv_update_ok [of env d t p r ?w3, OF assms(12,13) [unfolded assms(4)]]
  let ?w4 = "snd (csv_update env p d t r ?w3)"
  have r1: "translate_route env req w =
     (\<lparr>status = 200, original = req_text req, preprocessed = p,
       translated = r, res_targetLanguage = req_targetLanguage req,
       res_confidence = None, preprocessing = flags, res_detectedLanguage = detect_step p\<rparr>, ?w4)"
    using translate_route_ok [OF assms(1), where tr = "\<lparr>translatedText = r\<rparr>" and w = w
        and ?w1.0 = ?w3] tt u(1) assms(2,3)
    by simp
  have f4: "files ?w4 = (files w)(f \<mapsto> old @ utf8_roundtrip (csv_record p r))"
    using rne assms(9,11) by (simp add: u(2) f3 assms(4,5))
  have t4: "translator ?w4" using t3 by simp
  \<comment> \<open>the same request again\<close>
  have again: "status (fst (translate_route env req ?w4)) = 200 \<and>
          translated (fst (translate_route env req ?w4)) = trim r \<and>
          files (snd (translate_route env req ?w4)) = files ?w4 \<and>
          (\<exists>pre post.
             trace (snd (translate_route env req ?w4)) =
               trace ?w4 @ pre @
               Translate p (nllb_code d)
                 (if d = ''en'' \<or> t = ''en'' then nllb_code t else (Code ''eng_Latn'')) # post)"
    if h: "\<not> readdir_fails env \<and> (old = [] \<or> last old = LF) \<and>
        COMMA \<notin> set (trim p) \<and> LF \<notin> set (trim p) \<and>
        COMMA \<notin> set (trim r) \<and> LF \<notin> set (trim r) \<and> trim r \<noteq> [] \<and>
        utf8_roundtrip (trim p) = trim p \<and> utf8_roundtrip (trim r) = trim r"
  proof -
    have rt: "utf8_roundtrip (csv_record p r) = csv_record p r"
      using h by (intro utf8_roundtrip_record) simp_all
    note f4 = f4 [unfolded rt]
    note fa = find_after_append [of old p r ?lc]
    have found: "find_phrase ?lc (?lc (trim p)) (split_lines (old @ csv_record p r)) = Some (trim r)"
      using h assms(6,9) by (intro fa(1)) simp_all
    have present: "src_present ?lc (?lc (trim p)) (split_lines (old @ csv_record p r))"
      using h assms(6,9) by (intro fa(2)) simp_all
    let ?v1 = "snd (lookupCulturalIdiom env p d t ?w4)"
    let ?v2 = "snd (getPhraseFromCSV env p d t ?v1)"
    let ?v3 = "snd (localPromise env p d t ?v2)"
    have idiom: "fst (lookupCulturalIdiom env p d t ?w4) = None"
    proof (cases "idiomFile d t")
      case None
      then show ?thesis by (simp add: lookupCulturalIdiom_fst)
    next
      case (Some g)
      then have "g \<noteq> f" using idiomFile_not_pairFile assms(4) by blast
      then have "files ?w4 g = files w g" by (simp add: f4)
      then show ?thesis using assms(8) Some
        by (auto simp: lookupCulturalIdiom_fst split: if_splits)
    qed
    have hit: "fst (getPhraseFromCSV env p d t ?v1) = Some (trim r)"
      using h assms(12) found by (simp add: getPhraseFromCSV_fst f4 assms(4) [symmetric])
    have t2: "translator ?v2" using t4 by simp
    have eng2: "fst (localPromise env p d t ?v2) = Inr r"
      using localPromise_again [of env p d t ?w2 r ?w3 ?v2] eng t2 by (metis prod.collapse)
    have tt2: "translateText env p (Str t) (Some d) ?w4 = (Inr \<lparr>translatedText = trim r\<rparr>, ?v3)"
      using short idiom hit eng2 by (simp add: translateText_unfold Let_def)
    have f3': "files ?v3 = files ?w4" by (simp add: localPromise_frame)
    note u2 = csv_update_ok [of env d t p "trim r" ?v3, OF assms(12,13) [unfolded assms(4)]]
    have r2: "translate_route env req ?w4 =
       (\<lparr>status = 200, original = req_text req, preprocessed = p,
         translated = trim r, res_targetLanguage = req_targetLanguage req,
         res_confidence = None, preprocessing = flags, res_detectedLanguage = detect_step p\<rparr>,
        snd (csv_update env p d t (trim r) ?v3))"
      using translate_route_ok [OF assms(1), where tr = "\<lparr>translatedText = trim r\<rparr>" and w = ?w4
          and ?w1.0 = ?v3] tt2 u2(1)
        assms(2,3) by simp
    have fin: "files (snd (csv_update env p d t (trim r) ?v3)) = files ?w4"
      using present by (simp add: u2(2) f3' f4 assms(4) [symmetric])
    obtain e1 where e1: "trace ?v1 = trace ?w4 @ e1" using lookup_trace(1) by blast
    obtain e2 where e2: "trace ?v2 = trace ?v1 @ e2" using lookup_trace(2) by blast
    obtain e3 where e3: "trace ?v3 = trace ?v2 @
        Translate p (nllb_code d) (if d = ''en'' \<or> t = ''en'' then nllb_code t else (Code ''eng_Latn'')) # e3"
      using localPromise_loaded_trace [OF t2] by blast
    obtain e4 where e4: "trace (snd (csv_update env p d t (trim r) ?v3)) = trace ?v3 @ e4"
      using csv_update_trace by blast
    have "trace (snd (csv_update env p d t (trim r) ?v3)) =
            trace ?w4 @ (e1 @ e2) @
            Translate p (nllb_code d) (if d = ''en'' \<or> t = ''en'' then nllb_code t else (Code ''eng_Latn''))
              # (e3 @ e4)"
      by (simp add: e1 e2 e3 e4)
    then have "\<exists>pre post. trace (snd (csv_update env p d t (trim r) ?v3)) =
            trace ?w4 @ pre @
            Translate p (nllb_code d) (if d = ''en'' \<or> t = ''en'' then nllb_code t else (Code ''eng_Latn''))
              # post"
      by blast
    then show ?thesis using fin by (simp add: r2)
  qed
  show ?thesis
    using again f4 by (simp add: r1)
qed

theorem cache_population_witness:
  "files (snd (translate_route host hello_request blank))
     = [''en-hi.csv'' \<mapsto> csv_record (js ''hello'') NAMASTE]
   \<and> translated (fst (translate_route host hello_request
                        (snd (translate_route host hello_request blank)))) = NAMASTE
   \<and> files (snd (translate_route host hello_request
                    (snd (translate_route host hello_request blank))))
       = [''en-hi.csv'' \<mapsto> csv_record (js ''hello'') NAMASTE]"
proof -
  let ?p = "js ''hello''"
  have 1: "preprocess_step host hello_request = Inr (?p, no_flags)"
    by (simp add: route_defs sample_defs)
  have 2: "''en'' = detect_step ?p" by (simp add: route_defs js_def)
  have 3: "''hi'' = req_targetLanguage hello_request" by (simp add: route_defs)
  have 4: "''en-hi.csv'' = pairFile ''en'' ''hi''" by (simp add: pairFile_def)
  have 5: "[] = (case files blank ''en-hi.csv'' of None \<Rightarrow> [] | Some c \<Rightarrow> c)"
    by (simp add: sample_defs)
  have 6: "trim ?p \<noteq> []" by (simp add: string_defs)
  have 7: "''en'' \<noteq> ''hi''" by simp
  have 8: "fst (lookupCulturalIdiom host ?p ''en'' ''hi'' blank) = None"
    by (simp add: lookup_defs io_defs sample_defs)
  have 9: "\<not> src_present (toLowerCase host) (toLowerCase host (trim ?p)) (split_lines [])"
    by simp
  have 10: "fst (localPromise host ?p ''en'' ''hi'' blank) = Inr NAMASTE"
    by (simp add: engine_defs io_defs sample_defs js_def)
  have 11: "toLowerCase host (trim NAMASTE) \<noteq> toLowerCase host (trim ?p)"
    by (simp add: sample_defs string_defs NAMASTE_def)
  have 12: "\<not> read_fails host ''en-hi.csv''" by (simp add: sample_defs)
  have 13: "\<not> append_fails host ''en-hi.csv''" by (simp add: sample_defs)
  have h: "\<not> readdir_fails host \<and> ([] = [] \<or> last [] = LF) \<and>
        COMMA \<notin> set (trim ?p) \<and> LF \<notin> set (trim ?p) \<and>
        COMMA \<notin> set (trim NAMASTE) \<and> LF \<notin> set (trim NAMASTE) \<and> trim NAMASTE \<noteq> [] \<and>
        utf8_roundtrip (trim ?p) = trim ?p \<and> utf8_roundtrip (trim NAMASTE) = trim NAMASTE"
    by (simp add: sample_defs string_defs NAMASTE_def isHigh_def isLow_def)
  have tn: "trim NAMASTE = NAMASTE" by (simp add: string_defs NAMASTE_def)
  note t = cache_population [OF 1 2 3 4 5 6 7 8 9 10 11 12 13]
  from t [THEN conjunct2, THEN conjunct2, THEN conjunct1]
  have a: "files (snd (translate_route host hello_request blank))
     = [''en-hi.csv'' \<mapsto> csv_record ?p NAMASTE]"
    by (simp add: sample_defs utf8_roundtrip_samples)
  from t [THEN conjunct2, THEN conjunct2, THEN conjunct2, rule_format, OF h]
  have b: "translated (fst (translate_route host hello_request
                        (snd (translate_route host hello_request blank)))) = NAMASTE
     \<and> files (snd (translate_route host hello_request
                    (snd (translate_route host hello_request blank))))
       = files (snd (translate_route host hello_request blank))"
    by (simp add: tn)
  from a b show ?thesis by simp
qed

text \<open>
  The claim C3 as stated fails in five ways. The repeated request is answered from the
  cache, but the translator is called again: the lookup and the translation step always
  run together. A phrase file with the line \<open>hello\<close> and no target has no hit for
  \<open>hello\<close>, yet the route finds the source there and appends nothing. A text with a
  comma is appended but never found again, so that the repeated request appends a second
  record; and so it is when the file did not end with a newline. A text with a surrogate
  that has no partner is stored with U+FFFD in its place: the record is not that of the
  text, the repeated request does not find it and appends the same record again.
\<close>

theorem cache_population_counterexample:
  "translated (fst (translate_route host hello_request
                      (snd (translate_route host hello_request blank)))) = NAMASTE
   \<and> trace (snd (translate_route host hello_request
                    (snd (translate_route host hello_request blank))))
       = trace (snd (translate_route host hello_request blank)) @
         [ReadFile ''en-hi-idioms.csv'', ReadDir, ReadFile ''en-hi.csv'',
          Translate (js ''hello'') (Code ''eng_Latn'') (Code ''hin_Deva''),
          Exists ''en-hi.csv'', ReadFile ''en-hi.csv'']
   \<and> fst (getPhraseFromCSV host (js ''hello'') ''en'' ''hi'' half) = None
   \<and> translated (fst (translate_route host hello_request half)) = NAMASTE
   \<and> files (snd (translate_route host hello_request half)) = files half
   \<and> files (snd (translate_route comma_host comma_request
                    (snd (translate_route comma_host comma_request blank)))) ''en-hi.csv''
       = Some (csv_record (js ''hello, hello'') (NAMASTE @ js '', '' @ NAMASTE)
               @ csv_record (js ''hello, hello'') (NAMASTE @ js '', '' @ NAMASTE))
   \<and> files (snd (translate_route host hello_request
                    (snd (translate_route host hello_request unterminated)))) ''en-hi.csv''
       = Some (js ''x,y'' @ csv_record (js ''hello'') NAMASTE @ csv_record (js ''hello'') NAMASTE)
   \<and> files (snd (translate_route fixed_host lone_request blank)) ''en-hi.csv''
       = Some (csv_record (0xFFFD # js ''abc'') NAMASTE)
   \<and> csv_record (0xFFFD # js ''abc'') NAMASTE \<noteq> csv_record (0xD800 # js ''abc'') NAMASTE
   \<and> files (snd (translate_route fixed_host lone_request
                    (snd (translate_route fixed_host lone_request blank)))) ''en-hi.csv''
       = Some (csv_record (0xFFFD # js ''abc'') NAMASTE
               @ csv_record (0xFFFD # js ''abc'') NAMASTE)"
proof -
  have 1: "fst (getPhraseFromCSV host (js ''hello'') ''en'' ''hi'' half) = None
     \<and> translated (fst (translate_route host hello_request half)) = NAMASTE
     \<and> files (snd (translate_route host hello_request half)) = files half"
    by (simp add: route_defs lookup_defs io_defs engine_defs sample_defs string_defs half_def)
  have 2: "files (snd (translate_route comma_host comma_request
                    (snd (translate_route comma_host comma_request blank)))) ''en-hi.csv''
       = Some (csv_record (js ''hello, hello'') (NAMASTE @ js '', '' @ NAMASTE)
               @ csv_record (js ''hello, hello'') (NAMASTE @ js '', '' @ NAMASTE))"
    by (simp add: route_defs lookup_defs io_defs engine_defs sample_defs string_defs
        comma_host_def comma_request_def comma_model_def)
  have 3: "files (snd (translate_route host hello_request
                    (snd (translate_route host hello_request unterminated)))) ''en-hi.csv''
       = Some (js ''x,y'' @ csv_record (js ''hello'') NAMASTE @ csv_record (js ''hello'') NAMASTE)"
    by (simp add: route_defs lookup_defs io_defs engine_defs sample_defs string_defs
        unterminated_def)
  have 5: "csv_record (0xFFFD # js ''abc'') NAMASTE \<noteq> csv_record (0xD800 # js ''abc'') NAMASTE"
    by (simp add: string_defs)
  show ?thesis
    using 1 2 3 5 by (simp add: hello_first hello_second lone_first lone_second)
qed

end
